theory Spec2Isabelle
  imports Complex_Main "HOL-Library.List_Lexorder"
begin

section \<open>Strings\<close>

text \<open>
  A JavaScript string is a sequence of UTF-16 code units; \<open>charCodeAt\<close> reads one of
  them. The model keeps the code units as natural numbers, so that \<open>length\<close> counts what
  \<open>str.length\<close> counts. \<open>js\<close> writes a literal.
\<close>

type_synonym jsstring = "nat list"

definition js :: "string \<Rightarrow> jsstring" where
  "js s = map of_char s"

text \<open>\<open>str.startsWith(p)\<close>.\<close>

definition startsWith :: "jsstring \<Rightarrow> jsstring \<Rightarrow> bool" where
  "startsWith str p = (take (length p) str = p)"

section \<open>utils/random.js\<close>

text \<open>
  \<open>ToInt32\<close>: the value modulo \<open>2^32\<close>, read as a signed 32-bit integer. It is what
  \<open>hash << 5\<close> and \<open>hash & hash\<close> apply to their operands.
\<close>

definition toInt32 :: "int \<Rightarrow> int" where
  "toInt32 x = (x + 2 ^ 31) mod 2 ^ 32 - 2 ^ 31"

text \<open>
  One round of the loop of \<open>simpleHash\<close>:
  \<^verbatim>\<open>hash = ((hash << 5) - hash) + char; hash = hash & hash;\<close>
  The shift yields a 32-bit integer, the subtraction and the addition are exact on
  numbers of this size, and \<open>hash & hash\<close> brings the sum back to 32 bits.
\<close>

definition hashStep :: "int \<Rightarrow> nat \<Rightarrow> int" where
  "hashStep hash char = toInt32 ((toInt32 (hash * 2 ^ 5) - hash) + int char)"

definition simpleHash :: "jsstring \<Rightarrow> int" where
  "simpleHash str = foldl hashStep 0 str"

text \<open>
  \<open>new Date().toISOString().split('T')[0]\<close>: the clock is read as its ISO timestamp, and
  the date is what precedes the first \<open>T\<close> (code unit 84).
\<close>

definition isoDate :: "jsstring \<Rightarrow> jsstring" where
  "isoDate clock = takeWhile (\<lambda>c. c \<noteq> 84) clock"

text \<open>
  \<open>getDailyIndex(arrayLength, seed)\<close>, with the clock reading as an argument. For an
  array length of 0 the remainder is \<open>NaN\<close>, which is \<open>None\<close> here.
\<close>

definition getDailyIndex :: "jsstring \<Rightarrow> nat \<Rightarrow> jsstring \<Rightarrow> nat option" where
  "getDailyIndex clock arrayLength seed =
     (let today = isoDate clock;
          hash = simpleHash (seed @ js ''-'' @ today)
      in if arrayLength = 0 then None
         else Some (nat (\<bar>hash\<bar> mod int arrayLength)))"

text \<open>
  \<open>Math.floor(Math.random() * n)\<close>, where \<open>u\<close> is the number that \<open>Math.random()\<close>
  returned, a number with \<open>0 \<le> u < 1\<close>.
\<close>

definition randomBelow :: "real \<Rightarrow> nat \<Rightarrow> nat" where
  "randomBelow u n = nat \<lfloor>u * real n\<rfloor>"

text \<open>
  \<open>getRandomIndexWithHistory(items, history, idKey)\<close>; \<open>idKey\<close> is the reading of the
  id property of an item, \<open>u\<close> the random number drawn.
\<close>

definition getRandomIndexWithHistory :: "real \<Rightarrow> 'a list \<Rightarrow> 'k list \<Rightarrow> ('a \<Rightarrow> 'k) \<Rightarrow> nat" where
  "getRandomIndexWithHistory u items history idKey =
     (let availableIndices =
            map snd (filter (\<lambda>(item, index). idKey item \<notin> set history)
                            (zip items [0..<length items]))
      in if length availableIndices = 0 then randomBelow u (length items)
         else availableIndices ! randomBelow u (length availableIndices))"

section \<open>shared/constants.js\<close>

definition MAX_DAILY_API_CALLS :: nat where
  "MAX_DAILY_API_CALLS = 5"

definition MAX_VERSE_HISTORY :: nat where
  "MAX_VERSE_HISTORY = 20"

definition MAX_IMAGE_HISTORY :: nat where
  "MAX_IMAGE_HISTORY = 5"

text \<open>
  A settings object: its properties are strings, but for \<open>enabledCategories\<close>, an
  object of booleans. A partial settings object has the same shape with fewer keys.
\<close>

datatype sval = VStr jsstring | VCats "jsstring \<rightharpoonup> bool"

type_synonym settings = "jsstring \<rightharpoonup> sval"

definition DEFAULT_SETTINGS :: settings where
  "DEFAULT_SETTINGS =
     [js ''verseMode'' \<mapsto> VStr (js ''daily''),
      js ''backgroundMode'' \<mapsto> VStr (js ''daily''),
      js ''backgroundSource'' \<mapsto> VStr (js ''unsplash''),
      js ''theme'' \<mapsto> VStr (js ''light''),
      js ''translation'' \<mapsto> VStr (js ''NKJV''),
      js ''fontSize'' \<mapsto> VStr (js ''medium''),
      js ''enabledCategories'' \<mapsto>
        VCats [js ''nature'' \<mapsto> True, js ''galaxy'' \<mapsto> True, js ''oceans'' \<mapsto> True,
               js ''mountains'' \<mapsto> True, js ''underwater'' \<mapsto> True]]"

text \<open>\<open>STORAGE_KEYS\<close>.\<close>

definition SETTINGS :: jsstring where "SETTINGS = js ''settings''"
definition VERSE_HISTORY :: jsstring where "VERSE_HISTORY = js ''verse-history''"
definition IMAGE_HISTORY :: jsstring where "IMAGE_HISTORY = js ''image-history''"
definition CACHED_DAILY_VERSE :: jsstring where "CACHED_DAILY_VERSE = js ''cached-daily-verse''"
definition CACHED_DAILY_IMAGE :: jsstring where "CACHED_DAILY_IMAGE = js ''cached-daily-image''"
definition API_USAGE :: jsstring where "API_USAGE = js ''api-usage''"
definition VERSE_ROTATION :: jsstring where "VERSE_ROTATION = js ''verse-rotation''"
definition CUSTOM_IMAGE_HISTORY :: jsstring where "CUSTOM_IMAGE_HISTORY = js ''custom-image-history''"

section \<open>The values kept in the key-value store\<close>

record verse =
  reference :: jsstring
  vtext :: jsstring
  translation :: jsstring
  isOffline :: bool

record apiUsage =
  date :: jsstring
  callCount :: nat
  fetchedVerses :: "verse list"

record rotation =
  index :: nat
  updatedAt :: "nat option"

record cachedVerse =
  cv_date :: jsstring
  cv_verse :: verse

text \<open>
  A background image. \<open>isCustom\<close> is set on custom images only; where the property is
  absent it reads as false.
\<close>

record image =
  img_id :: jsstring
  path :: jsstring
  alt :: jsstring
  category :: jsstring
  photographer :: "jsstring option"
  photographerUrl :: "jsstring option"
  isUnsplash :: bool
  isCustom :: bool

record cachedImage =
  ci_date :: jsstring
  ci_image :: "image option"

text \<open>
  What \<open>chrome.storage.sync\<close> holds under a key: \<open>JNull\<close> is the JSON \<open>null\<close>, the
  other constructors are the shapes that the extension writes. A key is read at the shape
  the extension writes under it; a value of another shape reads there as \<open>null\<close> does.
\<close>

datatype stored =
    JNull
  | JSettings settings
  | JIds "jsstring list"
  | JCachedVerse cachedVerse
  | JCachedImage cachedImage
  | JUsage apiUsage
  | JRotation rotation

type_synonym storage = "jsstring \<rightharpoonup> stored"

datatype error =
    TypeError
  | FetchFailed
  | ESVApiError nat
  | NoVerseData
  | QuotaExceeded
  | InvalidType
  | TooLarge
  | ConstraintError

section \<open>shared/storage.js\<close>

text \<open>\<open>get(key, defaultValue)\<close> and \<open>set(key, value)\<close>.\<close>

definition get :: "storage \<Rightarrow> jsstring \<Rightarrow> stored \<Rightarrow> stored" where
  "get sto key defaultValue = (case sto key of Some v \<Rightarrow> v | None \<Rightarrow> defaultValue)"

definition set_store :: "jsstring \<Rightarrow> stored \<Rightarrow> storage \<Rightarrow> storage" where
  "set_store key v sto = sto(key \<mapsto> v)"

text \<open>The properties that an object spread \<open>{...x}\<close> copies: none when \<open>x\<close> is \<open>null\<close>.\<close>

definition spread :: "stored \<Rightarrow> settings" where
  "spread v = (case v of JSettings s \<Rightarrow> s | _ \<Rightarrow> Map.empty)"

text \<open>\<open>{...(x.enabledCategories || {})}\<close>.\<close>

definition categoriesOf :: "settings \<Rightarrow> (jsstring \<rightharpoonup> bool)" where
  "categoriesOf s = (case s (js ''enabledCategories'') of Some (VCats c) \<Rightarrow> c | _ \<Rightarrow> Map.empty)"

definition getSettings :: "storage \<Rightarrow> settings" where
  "getSettings sto =
     (let settings = spread (get sto SETTINGS (JSettings DEFAULT_SETTINGS))
      in (DEFAULT_SETTINGS ++ settings)
           (js ''enabledCategories'' \<mapsto>
              VCats (categoriesOf DEFAULT_SETTINGS ++ categoriesOf settings)))"

definition updateSettings :: "settings \<Rightarrow> storage \<Rightarrow> settings \<times> storage" where
  "updateSettings partial sto =
     (let current = getSettings sto;
          updated = (current ++ partial)
                      (js ''enabledCategories'' \<mapsto>
                         VCats (categoriesOf current ++ categoriesOf partial));
          sto1 = set_store SETTINGS (JSettings updated) sto;
          backgroundKeys = [js ''backgroundMode'', js ''backgroundSource'', js ''enabledCategories''];
          backgroundChanged = list_ex (\<lambda>key. partial key \<noteq> None) backgroundKeys;
          sto2 = (if backgroundChanged then set_store (js ''cached-daily-image'') JNull sto1 else sto1)
      in (updated, sto2))"

text \<open>
  A history is an array of ids. \<open>history.filter\<close> and \<open>history.includes\<close> raise a
  \<open>TypeError\<close> on any other stored value.
\<close>

definition asArray :: "stored \<Rightarrow> error + jsstring list" where
  "asArray v = (case v of JIds ids \<Rightarrow> Inr ids | _ \<Rightarrow> Inl TypeError)"

definition getHistory :: "storage \<Rightarrow> jsstring \<Rightarrow> stored" where
  "getHistory sto historyKey = get sto historyKey (JIds [])"

definition addToHistory :: "jsstring \<Rightarrow> jsstring \<Rightarrow> nat \<Rightarrow> storage \<Rightarrow> error + storage" where
  "addToHistory historyKey itemId maxSize sto =
     (case asArray (get sto historyKey (JIds [])) of
        Inl e \<Rightarrow> Inl e
      | Inr history \<Rightarrow>
          (let filtered = filter (\<lambda>i. i \<noteq> itemId) history;
               trimmed = take maxSize (itemId # filtered)
           in Inr (set_store historyKey (JIds trimmed) sto)))"

definition cacheDailyVerse :: "jsstring \<Rightarrow> verse \<Rightarrow> storage \<Rightarrow> storage" where
  "cacheDailyVerse clock v sto =
     set_store CACHED_DAILY_VERSE (JCachedVerse \<lparr>cv_date = isoDate clock, cv_verse = v\<rparr>) sto"

definition getCachedDailyVerse :: "jsstring \<Rightarrow> storage \<Rightarrow> verse option" where
  "getCachedDailyVerse clock sto =
     (case get sto CACHED_DAILY_VERSE JNull of
        JCachedVerse cached \<Rightarrow>
          if cv_date cached = isoDate clock then Some (cv_verse cached) else None
      | _ \<Rightarrow> None)"

definition getApiUsage :: "jsstring \<Rightarrow> storage \<Rightarrow> apiUsage" where
  "getApiUsage clock sto =
     (let today = isoDate clock;
          fresh = \<lparr>date = today, callCount = 0, fetchedVerses = []\<rparr>
      in case get sto API_USAGE JNull of
           JUsage usage \<Rightarrow> if date usage \<noteq> today then fresh else usage
         | _ \<Rightarrow> fresh)"

definition recordApiCall :: "jsstring \<Rightarrow> verse \<Rightarrow> storage \<Rightarrow> apiUsage \<times> storage" where
  "recordApiCall clock v sto =
     (let usage = getApiUsage clock sto;
          exists = list_ex (\<lambda>w. reference w = reference v) (fetchedVerses usage);
          usage1 = (if \<not> exists then usage\<lparr>fetchedVerses := fetchedVerses usage @ [v]\<rparr> else usage);
          usage2 = usage1\<lparr>callCount := callCount usage1 + 1\<rparr>
      in (usage2, set_store API_USAGE (JUsage usage2) sto))"

definition canMakeApiCall :: "jsstring \<Rightarrow> storage \<Rightarrow> bool" where
  "canMakeApiCall clock sto = (callCount (getApiUsage clock sto) < MAX_DAILY_API_CALLS)"

definition getRemainingApiCalls :: "jsstring \<Rightarrow> storage \<Rightarrow> nat" where
  "getRemainingApiCalls clock sto = MAX_DAILY_API_CALLS - callCount (getApiUsage clock sto)"

definition getTodaysFetchedVerses :: "jsstring \<Rightarrow> storage \<Rightarrow> verse list" where
  "getTodaysFetchedVerses clock sto = fetchedVerses (getApiUsage clock sto)"

definition getVerseRotationIndex :: "storage \<Rightarrow> nat" where
  "getVerseRotationIndex sto =
     (case get sto VERSE_ROTATION JNull of JRotation data \<Rightarrow> index data | _ \<Rightarrow> 0)"

text \<open>
  \<open>incrementVerseRotationIndex(maxIndex)\<close>; \<open>now\<close> is \<open>Date.now()\<close>. The default of the
  read is \<open>{ index: 0 }\<close>; reading \<open>data.index\<close> of a stored \<open>null\<close> raises.
\<close>

definition incrementVerseRotationIndex :: "nat \<Rightarrow> nat \<Rightarrow> storage \<Rightarrow> error + nat \<times> storage" where
  "incrementVerseRotationIndex now maxIndex sto =
     (case get sto VERSE_ROTATION (JRotation \<lparr>index = 0, updatedAt = None\<rparr>) of
        JRotation data \<Rightarrow>
          (let newIndex = (index data + 1) mod (maxIndex + 1)
           in Inr (newIndex,
                   set_store VERSE_ROTATION (JRotation \<lparr>index = newIndex, updatedAt = Some now\<rparr>) sto))
      | _ \<Rightarrow> Inl TypeError)"

section \<open>shared/verse.js\<close>

subsection \<open>What the module reads from outside\<close>

record bundledVerse =
  bv_id :: jsstring
  bv_reference :: jsstring
  bv_text :: jsstring

text \<open>
  The answer of the ESV API to a query: no usable response (the request or the parsing
  of its body fails), a response whose status is not ok, or a JSON body with its
  \<open>passages\<close> and \<open>canonical\<close> properties, each of which may be absent.
\<close>

datatype esvReply =
    NoResponse
  | Status nat
  | Body "jsstring list option" "jsstring option"

text \<open>
  \<open>clock\<close> is \<open>new Date().toISOString()\<close> and \<open>now\<close> is \<open>Date.now()\<close>;
  \<open>bundleFile\<close> is the parsed \<open>data/nkjv-fallback.json\<close>, \<open>None\<close> when it cannot be
  fetched or parsed; \<open>esvApi\<close> answers a query for a reference; the two random numbers
  are the results of \<open>Math.random()\<close> in \<open>getRandomVerseReference\<close> and in
  \<open>getRandomIndexWithHistory\<close>.
\<close>

record env =
  clock :: jsstring
  now :: nat
  bundleFile :: "bundledVerse list option"
  esvApi :: "jsstring \<Rightarrow> esvReply"
  randomReference :: real
  randomHistory :: real

text \<open>
  The state that a call goes through: the key-value store, the module variable
  \<open>nkjvVerses\<close>, and the list of the queries sent to the ESV API so far.
\<close>

record state =
  storage :: storage
  nkjvVerses :: "bundledVerse list option"
  requests :: "jsstring list"

subsection \<open>Cleaning of the passage text\<close>

text \<open>The code units that \<open>\s\<close> matches and that \<open>trim()\<close> removes.\<close>

definition isWhitespace :: "nat \<Rightarrow> bool" where
  "isWhitespace c =
     (c \<in> set [9, 10, 11, 12, 13, 32, 160, 5760, 8232, 8233, 8239, 8287, 12288, 65279]
      \<or> (8192 \<le> c \<and> c \<le> 8202))"

text \<open>\<open>.replace(/\s+/g, ' ')\<close>: every maximal run of whitespace becomes one space.\<close>

function collapseWhitespace :: "jsstring \<Rightarrow> jsstring" where
  "collapseWhitespace [] = []"
| "collapseWhitespace (c # cs) =
     (if isWhitespace c then 32 # collapseWhitespace (dropWhile isWhitespace cs)
      else c # collapseWhitespace cs)"
  by pat_completeness auto
termination
  by (relation "measure length") (auto simp: length_dropWhile_le less_Suc_eq_le)

definition trim :: "jsstring \<Rightarrow> jsstring" where
  "trim str = rev (dropWhile isWhitespace (rev (dropWhile isWhitespace str)))"

text \<open>
  The backend's \<open>cleanVerseText\<close> (api/daily-verse.js and server.js) removes the
  matches of \<open>/\[\d+\]/g\<close> first: an opening bracket (91), one or more digits, a closing
  bracket (93).
\<close>

definition isDigit :: "nat \<Rightarrow> bool" where
  "isDigit c = (48 \<le> c \<and> c \<le> 57)"

function removeBracketNumbers :: "jsstring \<Rightarrow> jsstring" where
  "removeBracketNumbers [] = []"
| "removeBracketNumbers (c # cs) =
     (let digits = takeWhile isDigit cs; rest = dropWhile isDigit cs
      in if c = 91 \<and> digits \<noteq> [] \<and> rest \<noteq> [] \<and> hd rest = 93
         then removeBracketNumbers (tl rest)
         else c # removeBracketNumbers cs)"
  by pat_completeness auto
termination
proof (relation "measure length")
  show "wf (measure length)" by simp
next
  fix c :: nat and cs x xa :: "nat list"
  assume "xa = dropWhile isDigit cs"
  have "length (tl (dropWhile isDigit cs)) \<le> length (dropWhile isDigit cs)"
    by simp
  also have "\<dots> \<le> length cs"
    by (rule length_dropWhile_le)
  finally have "length (tl (dropWhile isDigit cs)) \<le> length cs" .
  then show "(tl xa, c # cs) \<in> measure length"
    using \<open>xa = dropWhile isDigit cs\<close> by simp
next
  fix c :: nat and cs x xa :: "nat list"
  show "(cs, c # cs) \<in> measure length" by simp
qed

definition cleanVerseText :: "jsstring \<Rightarrow> jsstring" where
  "cleanVerseText str = trim (collapseWhitespace (removeBracketNumbers str))"

subsection \<open>The functions of the module\<close>

text \<open>The list that \<open>loadNKJVVerses\<close> returns when the bundled file cannot be loaded.\<close>

definition minimalFallback :: "bundledVerse list" where
  "minimalFallback =
     [\<lparr>bv_id = js ''john-3-16'', bv_reference = js ''John 3:16'',
       bv_text = js ''For God so loved the world that He gave His only begotten Son, that whoever believes in Him should not perish but have everlasting life.''\<rparr>]"

definition loadNKJVVerses :: "env \<Rightarrow> state \<Rightarrow> bundledVerse list \<times> state" where
  "loadNKJVVerses env st =
     (case nkjvVerses st of
        Some verses \<Rightarrow> (verses, st)
      | None \<Rightarrow>
          (case bundleFile env of
             Some verses \<Rightarrow> (verses, st\<lparr>nkjvVerses := Some verses\<rparr>)
           | None \<Rightarrow> (minimalFallback, st)))"

text \<open>An array read \<open>xs[i]\<close>: \<open>undefined\<close>, here \<open>None\<close>, out of range.\<close>

definition arrayAt :: "'a list \<Rightarrow> nat \<Rightarrow> 'a option" where
  "arrayAt xs i = (if i < length xs then Some (xs ! i) else None)"

text \<open>
  In the next functions, reading a property of \<open>undefined\<close> (an array read out of range,
  or at the index \<open>NaN\<close>) raises a \<open>TypeError\<close>.
\<close>

definition getRandomVerseReference :: "env \<Rightarrow> state \<Rightarrow> (error + jsstring) \<times> state" where
  "getRandomVerseReference env st =
     (let (verses, st1) = loadNKJVVerses env st;
          randomIndex = randomBelow (randomReference env) (length verses)
      in case arrayAt verses randomIndex of
           None \<Rightarrow> (Inl TypeError, st1)
         | Some v \<Rightarrow> (Inr (bv_reference v), st1))"

definition getDailyVerseReference :: "env \<Rightarrow> state \<Rightarrow> (error + jsstring) \<times> state" where
  "getDailyVerseReference env st =
     (let (verses, st1) = loadNKJVVerses env st
      in case getDailyIndex (clock env) (length verses) (js ''daily-verse'') of
           None \<Rightarrow> (Inl TypeError, st1)
         | Some idx \<Rightarrow>
             (case arrayAt verses idx of
                None \<Rightarrow> (Inl TypeError, st1)
              | Some v \<Rightarrow> (Inr (bv_reference v), st1)))"

definition fetchFromESV :: "env \<Rightarrow> jsstring \<Rightarrow> state \<Rightarrow> (error + verse) \<times> state" where
  "fetchFromESV env ref st =
     (let st1 = st\<lparr>requests := requests st @ [ref]\<rparr>
      in case esvApi env ref of
           NoResponse \<Rightarrow> (Inl FetchFailed, st1)
         | Status code \<Rightarrow> (Inl (ESVApiError code), st1)
         | Body passages canonical \<Rightarrow>
             (case passages of
                None \<Rightarrow> (Inl NoVerseData, st1)
              | Some [] \<Rightarrow> (Inl NoVerseData, st1)
              | Some (passage # _) \<Rightarrow>
                  (Inr \<lparr>reference = (case canonical of
                                        None \<Rightarrow> ref
                                      | Some c \<Rightarrow> if c = [] then ref else c),
                        vtext = trim (collapseWhitespace passage),
                        translation = js ''ESV'',
                        isOffline = False\<rparr>, st1)))"

definition fetchVerseFromESV :: "env \<Rightarrow> jsstring \<Rightarrow> state \<Rightarrow> (error + verse) \<times> state" where
  "fetchVerseFromESV env mode st =
     (case (if mode = js ''daily'' then getDailyVerseReference env st
            else getRandomVerseReference env st) of
        (Inl e, st1) \<Rightarrow> (Inl e, st1)
      | (Inr ref, st1) \<Rightarrow> fetchFromESV env ref st1)"

definition offlineVerse :: "bundledVerse \<Rightarrow> verse" where
  "offlineVerse v =
     \<lparr>reference = bv_reference v, vtext = bv_text v, translation = js ''NKJV'', isOffline = True\<rparr>"

definition getNKJVFallback :: "env \<Rightarrow> jsstring \<Rightarrow> state \<Rightarrow> (error + verse) \<times> state" where
  "getNKJVFallback env mode st =
     (let (verses, st1) = loadNKJVVerses env st
      in if mode = js ''daily'' then
           (case getDailyIndex (clock env) (length verses) (js ''nkjv-verse'') of
              None \<Rightarrow> (Inl TypeError, st1)
            | Some idx \<Rightarrow>
                (case arrayAt verses idx of
                   None \<Rightarrow> (Inl TypeError, st1)
                 | Some v \<Rightarrow> (Inr (offlineVerse v), st1)))
         else
           (case asArray (getHistory (storage st1) VERSE_HISTORY) of
              Inl e \<Rightarrow> (Inl e, st1)
            | Inr history \<Rightarrow>
                (let idx = getRandomIndexWithHistory (randomHistory env) verses history bv_id
                 in case arrayAt verses idx of
                      None \<Rightarrow> (Inl TypeError, st1)
                    | Some v \<Rightarrow>
                        (case addToHistory VERSE_HISTORY (bv_id v) MAX_VERSE_HISTORY (storage st1) of
                           Inl e \<Rightarrow> (Inl e, st1)
                         | Inr sto \<Rightarrow> (Inr (offlineVerse v), st1\<lparr>storage := sto\<rparr>)))))"

text \<open>
  The block \<open>if (forceNewVerse) { ... }\<close> of \<open>getVerse\<close>. A failure of the fetch is
  caught; what the attempt did to the state stays.
\<close>

definition cycleFetchedVerses :: "env \<Rightarrow> jsstring \<Rightarrow> state \<Rightarrow> (error + verse) \<times> state" where
  "cycleFetchedVerses env mode st =
     (let fetched = getTodaysFetchedVerses (clock env) (storage st)
      in if length fetched > 0 then
           (let i = getVerseRotationIndex (storage st);
                v = fetched ! (i mod length fetched)
            in case incrementVerseRotationIndex (now env) (length fetched - 1) (storage st) of
                 Inl e \<Rightarrow> (Inl e, st)
               | Inr (_, sto) \<Rightarrow> (Inr v, st\<lparr>storage := cacheDailyVerse (clock env) v sto\<rparr>))
         else getNKJVFallback env mode st)"

definition getVerseForced :: "env \<Rightarrow> jsstring \<Rightarrow> state \<Rightarrow> (error + verse) \<times> state" where
  "getVerseForced env mode st =
     (if canMakeApiCall (clock env) (storage st) then
        (case fetchVerseFromESV env mode st of
           (Inr v, st1) \<Rightarrow>
             (let (_, sto1) = recordApiCall (clock env) v (storage st1)
              in (Inr v, st1\<lparr>storage := cacheDailyVerse (clock env) v sto1\<rparr>))
         | (Inl _, st1) \<Rightarrow> cycleFetchedVerses env mode st1)
      else cycleFetchedVerses env mode st)"

text \<open>The rest of \<open>getVerse\<close>, from the comment \<open>Normal flow\<close> on.\<close>

definition reuseFetchedVerses :: "env \<Rightarrow> jsstring \<Rightarrow> state \<Rightarrow> (error + verse) \<times> state" where
  "reuseFetchedVerses env mode st =
     (let fetched = getTodaysFetchedVerses (clock env) (storage st)
      in if length fetched > 0 then
           (let i = getVerseRotationIndex (storage st);
                v = fetched ! (i mod length fetched)
            in (Inr v, if mode = js ''daily''
                       then st\<lparr>storage := cacheDailyVerse (clock env) v (storage st)\<rparr>
                       else st))
         else getNKJVFallback env mode st)"

definition getVerseNormal :: "env \<Rightarrow> jsstring \<Rightarrow> state \<Rightarrow> (error + verse) \<times> state" where
  "getVerseNormal env mode st =
     (if canMakeApiCall (clock env) (storage st) then
        (case fetchVerseFromESV env mode st of
           (Inr v, st1) \<Rightarrow>
             (let (_, sto1) = recordApiCall (clock env) v (storage st1)
              in (Inr v, if mode = js ''daily''
                         then st1\<lparr>storage := cacheDailyVerse (clock env) v sto1\<rparr>
                         else st1\<lparr>storage := sto1\<rparr>))
         | (Inl _, st1) \<Rightarrow> reuseFetchedVerses env mode st1)
      else reuseFetchedVerses env mode st)"

text \<open>\<open>settings.translation || 'ESV'\<close>: the empty string and a missing property are falsy.\<close>

definition preferredTranslation :: "settings \<Rightarrow> sval" where
  "preferredTranslation settings =
     (case settings (js ''translation'') of
        None \<Rightarrow> VStr (js ''ESV'')
      | Some v \<Rightarrow> if v = VStr [] then VStr (js ''ESV'') else v)"

definition getVerse :: "env \<Rightarrow> jsstring \<Rightarrow> bool \<Rightarrow> state \<Rightarrow> (error + verse) \<times> state" where
  "getVerse env mode forceNewVerse st =
     (let translation = preferredTranslation (getSettings (storage st));
          cached = (if mode = js ''daily'' \<and> \<not> forceNewVerse
                    then getCachedDailyVerse (clock env) (storage st) else None);
          hit = (case cached of
                   None \<Rightarrow> None
                 | Some c \<Rightarrow> if VStr (verse.translation c) = translation then Some c else None)
      in case hit of
           Some c \<Rightarrow> (Inr c, st)
         | None \<Rightarrow>
             if translation = VStr (js ''NKJV'') then
               (case getNKJVFallback env mode st of
                  (Inl e, st1) \<Rightarrow> (Inl e, st1)
                | (Inr v, st1) \<Rightarrow>
                    (Inr v, if mode = js ''daily''
                            then st1\<lparr>storage := cacheDailyVerse (clock env) v (storage st1)\<rparr>
                            else st1))
             else if forceNewVerse then getVerseForced env mode st
             else getVerseNormal env mode st)"


section \<open>newtab/imageDB.js\<close>

text \<open>
  A record of the object store \<open>customImages\<close>; \<open>getAllImages\<close> returns the records
  without their \<open>blob\<close>.
\<close>

record imageInfo =
  info_id :: jsstring
  info_name :: jsstring
  info_type :: jsstring
  info_size :: nat
  info_order :: nat
  info_addedAt :: nat

record customImage = imageInfo +
  blob :: "nat list"

text \<open>
  The object store, as the list of its records in the order of their keys (the ids), which
  is the order of \<open>store.getAll()\<close>.
\<close>

type_synonym imageStore = "customImage list"

record uploadedFile =
  file_name :: jsstring
  file_type :: jsstring
  file_size :: nat
  file_bytes :: "nat list"

text \<open>What \<open>addImage\<close> resolves to.\<close>

record savedImage =
  saved_id :: jsstring
  saved_name :: jsstring
  saved_order :: nat
  saved_addedAt :: nat

definition MAX_IMAGES :: nat where
  "MAX_IMAGES = 10"

text \<open>
  \<open>getAllImages()\<close>: the records without their blobs, sorted by \<open>order\<close>; the sort is
  stable.
\<close>

definition getAllImages :: "imageStore \<Rightarrow> imageInfo list" where
  "getAllImages db = sort_key info_order (map imageInfo.truncate db)"

definition getImage :: "imageStore \<Rightarrow> jsstring \<Rightarrow> customImage option" where
  "getImage db i = find (\<lambda>r. info_id r = i) db"

definition getImageCount :: "imageStore \<Rightarrow> nat" where
  "getImageCount db = length (getAllImages db)"

text \<open>The decimal digits of a number, as in \<open>`${Date.now()}`\<close>.\<close>

function decimal :: "nat \<Rightarrow> jsstring" where
  "decimal n = (if n < 10 then [48 + n] else decimal (n div 10) @ [48 + n mod 10])"
  by pat_completeness auto
termination
  by (relation "measure id") auto

declare decimal.simps [simp del]

text \<open>
  \<open>addImage(file)\<close>. \<open>dateNow\<close> is \<open>Date.now()\<close> and \<open>suffix\<close> is
  \<open>Math.random().toString(36).substr(2, 9)\<close>. The three checks raise; \<open>store.add\<close>
  fails when the store has a record of the same id.
\<close>

definition addImage :: "nat \<Rightarrow> jsstring \<Rightarrow> uploadedFile \<Rightarrow> imageStore \<Rightarrow> (error + savedImage) \<times> imageStore" where
  "addImage dateNow suffix f db =
     (let currentImages = getAllImages db
      in if length currentImages \<ge> MAX_IMAGES then (Inl QuotaExceeded, db)
         else if \<not> startsWith (file_type f) (js ''image/'') then (Inl InvalidType, db)
         else if file_size f > 5 * 1024 * 1024 then (Inl TooLarge, db)
         else
           (let newId = js ''custom-'' @ decimal dateNow @ js ''-'' @ suffix;
                maxOrder = foldl (\<lambda>m img. max m (info_order img)) 0 currentImages;
                imageData = \<lparr>info_id = newId, info_name = file_name f, info_type = file_type f,
                             info_size = file_size f, info_order = maxOrder + 1,
                             info_addedAt = dateNow, blob = file_bytes f\<rparr>
            in if newId \<in> set (map info_id db) then (Inl ConstraintError, db)
               else (Inr \<lparr>saved_id = newId, saved_name = file_name f,
                           saved_order = maxOrder + 1, saved_addedAt = dateNow\<rparr>,
                     insort_key info_id imageData db)))"

section \<open>The background provider\<close>

text \<open>
  The repository has two copies of the provider: the text that follows the functions of
  imageDB.js in newtab/imageDB.js (from its line 299 on), and newtab/background.js. They
  share the functions of this section.
\<close>

record localImage =
  li_id :: jsstring
  li_category :: jsstring
  li_filename :: jsstring
  li_alt :: jsstring

text \<open>
  What the provider reads from outside: the clock; the parsed \<open>data/images.json\<close>
  (\<open>None\<close> when it cannot be loaded); the outcome of \<open>fetchUnsplashImage(mode,
  enabledCategories)\<close>, which asks the backend over the network and is \<open>None\<close> when that
  fails; whether \<open>preloadImage(path)\<close> resolves; \<open>URL.createObjectURL\<close> and
  \<open>chrome.runtime.getURL\<close>; and the results of \<open>Math.random()\<close> in the choice between
  custom and remote, in \<open>getCustomImage\<close> and in \<open>getRandomIndexWithHistory\<close>.
\<close>

record bgEnv =
  bgClock :: jsstring
  imagesFile :: "localImage list option"
  unsplashAnswer :: "jsstring \<Rightarrow> (jsstring \<rightharpoonup> bool) \<Rightarrow> image option"
  preloads :: "jsstring \<Rightarrow> bool"
  createObjectURL :: "customImage \<Rightarrow> jsstring"
  runtimeURL :: "jsstring \<Rightarrow> jsstring"
  randomCoin :: real
  randomCustom :: real
  randomLocal :: real

text \<open>
  The state: the key-value store, the module variable \<open>imagesData\<close> and the object
  store of the custom images.
\<close>

record bgState =
  bgStorage :: storage
  imagesData :: "localImage list option"
  customImages :: imageStore

definition minimalImages :: "localImage list" where
  "minimalImages =
     [\<lparr>li_id = js ''nature-01'', li_category = js ''nature'',
       li_filename = js ''backgrounds/nature/nature-01.webp'', li_alt = js ''Nature background''\<rparr>]"

definition loadImagesData :: "bgEnv \<Rightarrow> bgState \<Rightarrow> localImage list \<times> bgState" where
  "loadImagesData env st =
     (case imagesData st of
        Some images \<Rightarrow> (images, st)
      | None \<Rightarrow>
          (case imagesFile env of
             Some images \<Rightarrow> (images, st\<lparr>imagesData := Some images\<rparr>)
           | None \<Rightarrow> (minimalImages, st)))"

definition filterByCategories :: "localImage list \<Rightarrow> (jsstring \<rightharpoonup> bool) \<Rightarrow> localImage list" where
  "filterByCategories images enabledCategories =
     (let filtered = filter (\<lambda>img. enabledCategories (li_category img) = Some True) images
      in if length filtered = 0 then images else filtered)"

definition getLocalImage :: "bgEnv \<Rightarrow> jsstring \<Rightarrow> (jsstring \<rightharpoonup> bool) \<Rightarrow> bgState \<Rightarrow> (error + image) \<times> bgState" where
  "getLocalImage env mode enabledCategories st =
     (let (images, st1) = loadImagesData env st;
          filteredImages = filterByCategories images enabledCategories;
          result = (\<lambda>img. \<lparr>img_id = li_id img,
                             path = runtimeURL env (js ''images/'' @ li_filename img),
                             alt = li_alt img, category = li_category img,
                             photographer = None, photographerUrl = None,
                             isUnsplash = False, isCustom = False\<rparr>)
      in if mode = js ''daily'' then
           (case getDailyIndex (bgClock env) (length filteredImages) (js ''bg-image'') of
              None \<Rightarrow> (Inl TypeError, st1)
            | Some idx \<Rightarrow>
                (case arrayAt filteredImages idx of
                   None \<Rightarrow> (Inl TypeError, st1)
                 | Some img \<Rightarrow> (Inr (result img), st1)))
         else
           (case asArray (getHistory (bgStorage st1) IMAGE_HISTORY) of
              Inl e \<Rightarrow> (Inl e, st1)
            | Inr history \<Rightarrow>
                (let idx = getRandomIndexWithHistory (randomLocal env) filteredImages history li_id
                 in case arrayAt filteredImages idx of
                      None \<Rightarrow> (Inl TypeError, st1)
                    | Some img \<Rightarrow>
                        (case addToHistory IMAGE_HISTORY (li_id img) MAX_IMAGE_HISTORY (bgStorage st1) of
                           Inl e \<Rightarrow> (Inl e, st1)
                         | Inr sto \<Rightarrow> (Inr (result img), st1\<lparr>bgStorage := sto\<rparr>)))))"

text \<open>\<open>getImageUrl(id)\<close>: \<open>null\<close> when the store has no record of the id.\<close>

definition getImageUrl :: "bgEnv \<Rightarrow> imageStore \<Rightarrow> jsstring \<Rightarrow> jsstring option" where
  "getImageUrl env db i = map_option (createObjectURL env) (getImage db i)"

definition customResult :: "imageInfo \<Rightarrow> jsstring \<Rightarrow> image" where
  "customResult selectedImage imageUrl =
     \<lparr>img_id = info_id selectedImage, path = imageUrl,
      alt = (if info_name selectedImage = [] then js ''Custom background'' else info_name selectedImage),
      category = js ''custom'', photographer = None, photographerUrl = None,
      isUnsplash = False, isCustom = True\<rparr>"

text \<open>\<open>getCustomImage(mode)\<close>; an empty URL is falsy.\<close>

definition getCustomImage :: "bgEnv \<Rightarrow> jsstring \<Rightarrow> bgState \<Rightarrow> (error + image option) \<times> bgState" where
  "getCustomImage env mode st =
     (let images = getAllImages (customImages st);
          finish = (\<lambda>selectedImage st1.
                      case getImageUrl env (customImages st1) (info_id selectedImage) of
                        None \<Rightarrow> (Inr None, st1)
                      | Some imageUrl \<Rightarrow>
                          if imageUrl = [] then (Inr None, st1)
                          else (Inr (Some (customResult selectedImage imageUrl)), st1))
      in if length images = 0 then (Inr None, st)
         else if mode = js ''daily'' then
           (case getDailyIndex (bgClock env) (length images) (js ''custom-image'') of
              None \<Rightarrow> (Inl TypeError, st)
            | Some idx \<Rightarrow>
                (case arrayAt images idx of
                   None \<Rightarrow> (Inl TypeError, st)
                 | Some selectedImage \<Rightarrow> finish selectedImage st))
         else
           (case asArray (getHistory (bgStorage st) CUSTOM_IMAGE_HISTORY) of
              Inl e \<Rightarrow> (Inl e, st)
            | Inr history \<Rightarrow>
                (let available = filter (\<lambda>img. info_id img \<notin> set history) images;
                     selected = (if length available > 0
                                 then arrayAt available (randomBelow (randomCustom env) (length available))
                                 else arrayAt images (randomBelow (randomCustom env) (length images)))
                 in case selected of
                      None \<Rightarrow> (Inl TypeError, st)
                    | Some selectedImage \<Rightarrow>
                        (case addToHistory CUSTOM_IMAGE_HISTORY (info_id selectedImage) 5 (bgStorage st) of
                           Inl e \<Rightarrow> (Inl e, st)
                         | Inr sto \<Rightarrow> finish selectedImage (st\<lparr>bgStorage := sto\<rparr>)))))"

text \<open>
  The remote image, kept only when it loads:
  \<^verbatim>\<open>if (image?.isUnsplash) { try { await preloadImage(image.path) } catch { image = null } }\<close>
\<close>

definition verified :: "bgEnv \<Rightarrow> image option \<Rightarrow> image option" where
  "verified env img =
     (case img of
        None \<Rightarrow> None
      | Some i \<Rightarrow> if isUnsplash i \<and> \<not> preloads env (path i) then None else Some i)"

text \<open>
  The part of \<open>getBackgroundImage\<close> after the look at the cache, which both copies have:
  the choice by \<open>source\<close>, the fallbacks, and the caching of a daily image.
  \<open>remote\<close> is the outcome of \<open>fetchUnsplashImage\<close>.
\<close>

definition orLocal :: "bgEnv \<Rightarrow> jsstring \<Rightarrow> (jsstring \<rightharpoonup> bool) \<Rightarrow> image option \<Rightarrow> bgState \<Rightarrow> (error + image) \<times> bgState" where
  "orLocal env mode enabledCategories img st =
     (case img of
        Some i \<Rightarrow> (Inr i, st)
      | None \<Rightarrow> getLocalImage env mode enabledCategories st)"

definition cacheDailyImage :: "bgEnv \<Rightarrow> jsstring \<Rightarrow> (error + image) \<times> bgState \<Rightarrow> (error + image) \<times> bgState" where
  "cacheDailyImage env mode r =
     (case r of
        (Inl e, st) \<Rightarrow> (Inl e, st)
      | (Inr img, st) \<Rightarrow>
          if mode = js ''daily''
          then (Inr img, st\<lparr>bgStorage := set_store (js ''cached-daily-image'')
                                 (JCachedImage \<lparr>ci_date = isoDate (bgClock env), ci_image = Some img\<rparr>)
                                 (bgStorage st)\<rparr>)
          else (Inr img, st))"

definition resolveImage :: "bgEnv \<Rightarrow> image option \<Rightarrow> jsstring \<Rightarrow> (jsstring \<rightharpoonup> bool) \<Rightarrow> jsstring \<Rightarrow> bgState \<Rightarrow> (error + image) \<times> bgState" where
  "resolveImage env remote mode enabledCategories source st =
     cacheDailyImage env mode
       (if source = js ''custom'' then
          (case getCustomImage env mode st of
             (Inl e, st1) \<Rightarrow> (Inl e, st1)
           | (Inr img, st1) \<Rightarrow> orLocal env mode enabledCategories img st1)
        else if source = js ''both'' then
          (let customCount = getImageCount (customImages st);
               useCustom = (customCount > 0 \<and> randomCoin env < 1 / 2)
           in case (if useCustom then getCustomImage env mode st else (Inr None, st)) of
                (Inl e, st1) \<Rightarrow> (Inl e, st1)
              | (Inr (Some img), st1) \<Rightarrow> (Inr img, st1)
              | (Inr None, st1) \<Rightarrow> orLocal env mode enabledCategories (verified env remote) st1)
        else orLocal env mode enabledCategories (verified env remote) st)"

text \<open>
  The test of the cached daily image on its source, which both copies make:
  \<^verbatim>\<open>(source === 'custom' && isCustom) || (source === 'unsplash' && !isCustom) || source === 'both'\<close>
\<close>

definition sourceMatches :: "jsstring \<Rightarrow> image \<Rightarrow> bool" where
  "sourceMatches source img =
     ((source = js ''custom'' \<and> isCustom img) \<or> (source = js ''unsplash'' \<and> \<not> isCustom img)
      \<or> source = js ''both'')"

text \<open>The cached daily image, when it is of today and holds an image.\<close>

definition cachedImageOfToday :: "bgEnv \<Rightarrow> storage \<Rightarrow> image option" where
  "cachedImageOfToday env sto =
     (case get sto (js ''cached-daily-image'') JNull of
        JCachedImage cached \<Rightarrow> if ci_date cached = isoDate (bgClock env) then ci_image cached else None
      | _ \<Rightarrow> None)"

subsection \<open>\<open>getBackgroundImage\<close> in newtab/imageDB.js, lines 529 to 613\<close>

definition getBackgroundImage :: "bgEnv \<Rightarrow> jsstring \<Rightarrow> (jsstring \<rightharpoonup> bool) \<Rightarrow> jsstring \<Rightarrow> bgState \<Rightarrow> (error + image) \<times> bgState" where
  "getBackgroundImage env mode enabledCategories source st =
     (let hit = (if mode = js ''daily'' then
                   (case cachedImageOfToday env (bgStorage st) of
                      None \<Rightarrow> None
                    | Some img \<Rightarrow> if sourceMatches source img then Some img else None)
                 else None)
      in case hit of
           Some img \<Rightarrow> (Inr img, st)
         | None \<Rightarrow>
             resolveImage env (unsplashAnswer env mode enabledCategories)
               mode enabledCategories source st)"

subsection \<open>\<open>getBackgroundImage\<close> in newtab/background.js, lines 152 to 240\<close>

text \<open>
  This copy has the parameter \<open>forceRefresh\<close>, tests the category of a cached image
  that is not custom, and its \<open>fetchUnsplashImage\<close> returns \<open>null\<close>:
  \<^verbatim>\<open>isCustom || (cached.image.category && enabledCategories[cached.image.category] === true)\<close>
\<close>

definition categoryMatches :: "(jsstring \<rightharpoonup> bool) \<Rightarrow> image \<Rightarrow> bool" where
  "categoryMatches enabledCategories img =
     (isCustom img \<or> (category img \<noteq> [] \<and> enabledCategories (category img) = Some True))"

definition getBackgroundImage_background_js :: "bgEnv \<Rightarrow> jsstring \<Rightarrow> (jsstring \<rightharpoonup> bool) \<Rightarrow> jsstring \<Rightarrow> bool \<Rightarrow> bgState \<Rightarrow> (error + image) \<times> bgState" where
  "getBackgroundImage_background_js env mode enabledCategories source forceRefresh st =
     (let hit = (if mode = js ''daily'' \<and> \<not> forceRefresh then
                   (case cachedImageOfToday env (bgStorage st) of
                      None \<Rightarrow> None
                    | Some img \<Rightarrow>
                        if sourceMatches source img \<and> categoryMatches enabledCategories img
                        then Some img else None)
                 else None)
      in case hit of
           Some img \<Rightarrow> (Inr img, st)
         | None \<Rightarrow> resolveImage env None mode enabledCategories source st)"

section \<open>Notions and sample data for the statements\<close>

definition sampleImage :: image where
  "sampleImage = \<lparr>img_id = js ''galaxy-03'', path = js ''images/backgrounds/galaxy/galaxy-03.webp'',
     alt = js ''Galaxy'', category = js ''galaxy'', photographer = None, photographerUrl = None,
     isUnsplash = False, isCustom = False\<rparr>"

definition sampleStorage :: storage where
  "sampleStorage =
     [CACHED_DAILY_IMAGE \<mapsto> JCachedImage \<lparr>ci_date = js ''2024-01-15'', ci_image = Some sampleImage\<rparr>,
      VERSE_HISTORY \<mapsto> JIds [js ''john-3-16'']]"


definition sampleEnv :: env where
  "sampleEnv = \<lparr>clock = js ''2024-01-15T09:00:00.000Z'', now = 1705309200000,
     bundleFile = None, esvApi = (\<lambda>q. NoResponse), randomReference = 0, randomHistory = 0\<rparr>"

definition verseA :: verse where
  "verseA = \<lparr>reference = js ''John 3:16'', vtext = js ''For God so loved the world'',
     translation = js ''ESV'', isOffline = False\<rparr>"

definition verseB :: verse where
  "verseB = \<lparr>reference = js ''Psalm 23:1'', vtext = js ''The Lord is my shepherd'',
     translation = js ''ESV'', isOffline = False\<rparr>"

definition exhaustedState :: state where
  "exhaustedState =
     \<lparr>storage =
        [SETTINGS \<mapsto> JSettings [js ''translation'' \<mapsto> VStr (js ''ESV'')],
         API_USAGE \<mapsto> JUsage \<lparr>date = js ''2024-01-15'', callCount = 5,
                                 fetchedVerses = [verseA, verseB]\<rparr>,
         VERSE_ROTATION \<mapsto> JRotation \<lparr>index = 0, updatedAt = None\<rparr>,
         CACHED_DAILY_VERSE \<mapsto> JCachedVerse \<lparr>cv_date = js ''2024-01-15'', cv_verse = verseB\<rparr>],
      nkjvVerses = None, requests = []\<rparr>"



text \<open>The record of today's API usage never lists more verses than calls.\<close>

definition usageBounded :: "jsstring \<Rightarrow> storage \<Rightarrow> bool" where
  "usageBounded clk sto =
     (length (fetchedVerses (getApiUsage clk sto)) \<le> callCount (getApiUsage clk sto))"

text \<open>The cached daily verse is of today and of the preferred translation.\<close>

definition cacheEligible :: "env \<Rightarrow> state \<Rightarrow> bool" where
  "cacheEligible env st =
     (case getCachedDailyVerse (clock env) (storage st) of
        None \<Rightarrow> False
      | Some c \<Rightarrow> VStr (translation c) = preferredTranslation (getSettings (storage st)))"

text \<open>
  A text is normalised when its only whitespace is the space (32), no two spaces are
  adjacent, and it neither starts nor ends with a space.
\<close>

fun noDoubleSpace :: "jsstring \<Rightarrow> bool" where
  "noDoubleSpace (a # b # cs) = (\<not> (a = 32 \<and> b = 32) \<and> noDoubleSpace (b # cs))"
| "noDoubleSpace cs = True"

definition whitespaceNormalised :: "jsstring \<Rightarrow> bool" where
  "whitespaceNormalised t =
     (list_all (\<lambda>c. isWhitespace c \<longrightarrow> c = 32) t \<and> noDoubleSpace t
      \<and> (t = [] \<or> (hd t \<noteq> 32 \<and> last t \<noteq> 32)))"

text \<open>The text has a match of \<open>/\[\d+\]/\<close>.\<close>

fun hasBracketNumber :: "jsstring \<Rightarrow> bool" where
  "hasBracketNumber [] = False"
| "hasBracketNumber (c # cs) =
     ((c = 91 \<and> takeWhile isDigit cs \<noteq> [] \<and> dropWhile isDigit cs \<noteq> []
        \<and> hd (dropWhile isDigit cs) = 93)
      \<or> hasBracketNumber cs)"

text \<open>An ESV API that answers every query with the passage of the example.\<close>

definition stubEnv :: env where
  "stubEnv = sampleEnv\<lparr>esvApi := (\<lambda>q. Body (Some [js ''For God so loved the world [16]...''])
                                           (Some (js ''John 3:16'')))\<rparr>"

definition freshState :: state where
  "freshState =
     \<lparr>storage = [SETTINGS \<mapsto> JSettings [js ''translation'' \<mapsto> VStr (js ''ESV'')]],
      nkjvVerses = None, requests = []\<rparr>"

definition psalmNKJV :: verse where
  "psalmNKJV = \<lparr>reference = js ''Psalm 23:1'', vtext = js ''The Lord is my shepherd; I shall not want.'',
     translation = js ''NKJV'', isOffline = True\<rparr>"

definition cachedNKJVState :: state where
  "cachedNKJVState =
     \<lparr>storage = [CACHED_DAILY_VERSE \<mapsto>
                   JCachedVerse \<lparr>cv_date = js ''2024-01-15'', cv_verse = psalmNKJV\<rparr>],
      nkjvVerses = None, requests = []\<rparr>"

definition emptyState :: state where
  "emptyState = \<lparr>storage = Map.empty, nkjvVerses = None, requests = []\<rparr>"

text \<open>
  A day without network: the first call of the day, on the empty store, caches the
  verse of the built-in list; then the preferred translation is set to ESV.
\<close>

definition offlineDayState :: state where
  "offlineDayState = snd (getVerse sampleEnv (js ''daily'') False emptyState)"

definition switchedState :: state where
  "switchedState =
     offlineDayState\<lparr>storage :=
       snd (updateSettings [js ''translation'' \<mapsto> VStr (js ''ESV'')] (storage offlineDayState))\<rparr>"

definition onceFetched :: storage where
  "onceFetched = [API_USAGE \<mapsto> JUsage \<lparr>date = js ''2024-01-15'', callCount = 1, fetchedVerses = [verseA]\<rparr>]"

definition sampleRecord :: "nat \<Rightarrow> customImage" where
  "sampleRecord n =
     \<lparr>info_id = js ''custom-'' @ decimal n, info_name = js ''photo.png'', info_type = js ''image/png'',
      info_size = 1024, info_order = n, info_addedAt = n, blob = []\<rparr>"

definition fullStore :: imageStore where
  "fullStore = map sampleRecord [0..<10]"

definition pngFile :: uploadedFile where
  "pngFile = \<lparr>file_name = js ''sunrise.png'', file_type = js ''image/png'', file_size = 2048,
     file_bytes = []\<rparr>"

definition textFile :: uploadedFile where
  "textFile = \<lparr>file_name = js ''notes.txt'', file_type = js ''text/plain'', file_size = 2048,
     file_bytes = []\<rparr>"

definition hugeFile :: uploadedFile where
  "hugeFile = \<lparr>file_name = js ''poster.png'', file_type = js ''image/png'',
     file_size = 6 * 1024 * 1024, file_bytes = []\<rparr>"

text \<open>
  A day on which the cached daily image is a bundled galaxy image and the category
  galaxy is switched off.
\<close>

definition galaxyOff :: "jsstring \<rightharpoonup> bool" where
  "galaxyOff = [js ''nature'' \<mapsto> True, js ''galaxy'' \<mapsto> False, js ''oceans'' \<mapsto> True,
                js ''mountains'' \<mapsto> True, js ''underwater'' \<mapsto> True]"

definition bgSampleEnv :: bgEnv where
  "bgSampleEnv =
     \<lparr>bgClock = js ''2024-01-15T09:00:00.000Z'', imagesFile = None,
      unsplashAnswer = (\<lambda>m c. None), preloads = (\<lambda>p. True),
      createObjectURL = (\<lambda>r. js ''blob:'' @ info_id r),
      runtimeURL = (\<lambda>p. js ''chrome-extension://id/'' @ p),
      randomCoin = 0, randomCustom = 0, randomLocal = 0\<rparr>"

definition staleCategoryState :: bgState where
  "staleCategoryState =
     \<lparr>bgStorage = [CACHED_DAILY_IMAGE \<mapsto>
                     JCachedImage \<lparr>ci_date = js ''2024-01-15'', ci_image = Some sampleImage\<rparr>],
      imagesData = None, customImages = []\<rparr>"

section \<open>Properties of the selectors\<close>

lemma randomBelow_less: "0 \<le> u \<Longrightarrow> u < 1 \<Longrightarrow> 0 < n \<Longrightarrow> randomBelow u n < n"
proof -
  assume u: "0 \<le> u" "u < 1" and n: "0 < n"
  have "u * real n < real n" using u n by simp
  then have "\<lfloor>u * real n\<rfloor> < int n" by (simp add: floor_less_iff)
  moreover have "0 \<le> \<lfloor>u * real n\<rfloor>" using u by simp
  ultimately show ?thesis unfolding randomBelow_def by linarith
qed

lemma randomBelow_one: "0 \<le> u \<Longrightarrow> u < 1 \<Longrightarrow> randomBelow u (Suc 0) = 0"
  using randomBelow_less [of u "Suc 0"] by simp


lemma availableIndices_eq:
  "map snd (filter (\<lambda>(item, index). P item) (zip items [0..<length items]))
     = filter (\<lambda>i. P (items ! i)) [0..<length items]"
proof -
  have z: "zip items [0..<length items] = map (\<lambda>i. (items ! i, i)) [0..<length items]"
    by (rule nth_equalityI) simp_all
  show ?thesis
    unfolding z by (simp add: filter_map comp_def)
qed

lemma singleton_filter_upt:
  assumes "i < n" "P i" "\<forall>j<n. j \<noteq> i \<longrightarrow> \<not> P j"
  shows "filter P [0..<n] = [i]"
proof -
  have d: "distinct (filter P [0..<n])" by simp
  have s: "set (filter P [0..<n]) = {i}" using assms by auto
  have "length (filter P [0..<n]) = card (set (filter P [0..<n]))"
    by (rule distinct_card [OF d, symmetric])
  then have "length (filter P [0..<n]) = 1" using s by simp
  then obtain x where x: "filter P [0..<n] = [x]"
    by (cases "filter P [0..<n]") auto
  with s show ?thesis by simp
qed

lemma getDailyIndex_less:
  assumes "0 < L"
  shows "\<exists>i. getDailyIndex clk L seed = Some i \<and> i < L"
proof -
  define h where "h = \<bar>simpleHash (seed @ js ''-'' @ isoDate clk)\<bar>"
  have "0 \<le> h mod int L" "h mod int L < int L" using assms by simp_all
  then have "nat (h mod int L) < L" by linarith
  then show ?thesis
    using assms by (simp add: getDailyIndex_def h_def Let_def)
qed

text \<open>
  Claim C2. For every seed and every length \<open>L > 0\<close>, \<open>getDailyIndex(L, seed)\<close> is an
  index below \<open>L\<close>, and two readings of the clock that fall on the same date give the
  same index: the result depends on the seed, the date and \<open>L\<close> only.
\<close>

theorem getDailyIndex_in_range_and_stable:
  assumes "0 < L"
  shows "(\<exists>i. getDailyIndex clk L seed = Some i \<and> i < L) \<and>
         (\<forall>clk'. isoDate clk' = isoDate clk \<longrightarrow>
            getDailyIndex clk' L seed = getDailyIndex clk L seed)"
proof
  show "\<exists>i. getDailyIndex clk L seed = Some i \<and> i < L"
    using assms by (rule getDailyIndex_less)
  show "\<forall>clk'. isoDate clk' = isoDate clk \<longrightarrow>
            getDailyIndex clk' L seed = getDailyIndex clk L seed"
    by (simp add: getDailyIndex_def)
qed

theorem getDailyIndex_in_range_and_stable_witness:
  "(0::nat) < 365 \<and>
   (\<exists>i. getDailyIndex (js ''2024-01-15T08:30:00.000Z'') 365 (js ''daily-verse'') = Some i \<and> i < 365) \<and>
   isoDate (js ''2024-01-15T23:59:59.999Z'') = isoDate (js ''2024-01-15T08:30:00.000Z'') \<and>
   getDailyIndex (js ''2024-01-15T23:59:59.999Z'') 365 (js ''daily-verse'')
     = getDailyIndex (js ''2024-01-15T08:30:00.000Z'') 365 (js ''daily-verse'')"
proof -
  have L: "(0::nat) < 365" by simp
  have d: "isoDate (js ''2024-01-15T23:59:59.999Z'') = isoDate (js ''2024-01-15T08:30:00.000Z'')"
    by (simp add: isoDate_def js_def)
  note t = getDailyIndex_in_range_and_stable [OF L, of "js ''2024-01-15T08:30:00.000Z''" "js ''daily-verse''"]
  from t have a: "\<exists>i. getDailyIndex (js ''2024-01-15T08:30:00.000Z'') 365 (js ''daily-verse'') = Some i \<and> i < 365"
    by (rule conjunct1)
  from t have "\<forall>clk'. isoDate clk' = isoDate (js ''2024-01-15T08:30:00.000Z'') \<longrightarrow>
            getDailyIndex clk' 365 (js ''daily-verse'') = getDailyIndex (js ''2024-01-15T08:30:00.000Z'') 365 (js ''daily-verse'')"
    by (rule conjunct2)
  then have b: "getDailyIndex (js ''2024-01-15T23:59:59.999Z'') 365 (js ''daily-verse'')
     = getDailyIndex (js ''2024-01-15T08:30:00.000Z'') 365 (js ''daily-verse'')"
    using d by blast
  from L a d b show ?thesis by (intro conjI)
qed

text \<open>
  Claim C8. For a non-empty list of items and a random number \<open>0 \<le> u < 1\<close>: when the
  history holds the id of every item but one, \<open>getRandomIndexWithHistory\<close> returns the
  index of that item; when it holds the ids of all items, the result is still an index
  of the list.
\<close>

theorem getRandomIndexWithHistory_single_candidate_and_range:
  assumes "0 \<le> u" "u < 1" "items \<noteq> []"
  shows "(\<forall>i<length items.
            idKey (items ! i) \<notin> set history \<and>
            (\<forall>j<length items. j \<noteq> i \<longrightarrow> idKey (items ! j) \<in> set history)
            \<longrightarrow> getRandomIndexWithHistory u items history idKey = i) \<and>
         ((\<forall>j<length items. idKey (items ! j) \<in> set history)
            \<longrightarrow> getRandomIndexWithHistory u items history idKey < length items)"
proof (intro conjI allI impI)
  fix i
  assume i: "i < length items"
    and only: "idKey (items ! i) \<notin> set history \<and>
               (\<forall>j<length items. j \<noteq> i \<longrightarrow> idKey (items ! j) \<in> set history)"
  have "filter (\<lambda>k. idKey (items ! k) \<notin> set history) [0..<length items] = [i]"
    using i only by (intro singleton_filter_upt) auto
  then show "getRandomIndexWithHistory u items history idKey = i"
    using assms(1,2)
    by (simp add: getRandomIndexWithHistory_def availableIndices_eq randomBelow_one)
next
  assume all: "\<forall>j<length items. idKey (items ! j) \<in> set history"
  have "filter (\<lambda>k. idKey (items ! k) \<notin> set history) [0..<length items] = []"
    using all by (simp add: filter_empty_conv)
  then show "getRandomIndexWithHistory u items history idKey < length items"
    using assms by (simp add: getRandomIndexWithHistory_def availableIndices_eq randomBelow_less)
qed


theorem getRandomIndexWithHistory_single_candidate_and_range_witness:
  "getRandomIndexWithHistory (1 / 2) [js ''img-a'', js ''img-b'', js ''img-c''] [js ''img-c'', js ''img-a''] id = 1 \<and>
   getRandomIndexWithHistory (1 / 2) [js ''img-a'', js ''img-b'', js ''img-c'']
      [js ''img-a'', js ''img-b'', js ''img-c''] id < 3"
proof -
  let ?items = "[js ''img-a'', js ''img-b'', js ''img-c'']"
  have u: "(0::real) \<le> 1 / 2" "(1::real) / 2 < 1" and ne: "?items \<noteq> []"
    by simp_all
  note t1 = getRandomIndexWithHistory_single_candidate_and_range
              [OF u ne, of id "[js ''img-c'', js ''img-a'']"]
  note t2 = getRandomIndexWithHistory_single_candidate_and_range
              [OF u ne, of id ?items]
  have only: "id (?items ! 1) \<notin> set [js ''img-c'', js ''img-a''] \<and>
              (\<forall>j<length ?items. j \<noteq> 1 \<longrightarrow> id (?items ! j) \<in> set [js ''img-c'', js ''img-a''])"
    by (simp add: js_def less_Suc_eq nth_Cons')
  have a: "getRandomIndexWithHistory (1 / 2) ?items [js ''img-c'', js ''img-a''] id = 1"
    using t1 [THEN conjunct1, rule_format, of 1] only by simp
  have all: "\<forall>j<length ?items. id (?items ! j) \<in> set ?items"
    by (simp add: less_Suc_eq nth_Cons')
  have b: "getRandomIndexWithHistory (1 / 2) ?items ?items id < 3"
    using t2 [THEN conjunct2, rule_format] all by simp
  from a b show ?thesis ..
qed

section \<open>Properties of the store and of the verse provider\<close>

lemma storage_keys_distinct [simp]:
  "SETTINGS \<noteq> VERSE_HISTORY \<and> SETTINGS \<noteq> IMAGE_HISTORY \<and> SETTINGS \<noteq> CACHED_DAILY_VERSE \<and>
   SETTINGS \<noteq> CACHED_DAILY_IMAGE \<and> SETTINGS \<noteq> API_USAGE \<and> SETTINGS \<noteq> VERSE_ROTATION \<and>
   SETTINGS \<noteq> CUSTOM_IMAGE_HISTORY \<and> VERSE_HISTORY \<noteq> SETTINGS \<and> VERSE_HISTORY \<noteq> IMAGE_HISTORY \<and>
   VERSE_HISTORY \<noteq> CACHED_DAILY_VERSE \<and> VERSE_HISTORY \<noteq> CACHED_DAILY_IMAGE \<and> VERSE_HISTORY \<noteq> API_USAGE \<and>
   VERSE_HISTORY \<noteq> VERSE_ROTATION \<and> VERSE_HISTORY \<noteq> CUSTOM_IMAGE_HISTORY \<and> IMAGE_HISTORY \<noteq> SETTINGS \<and>
   IMAGE_HISTORY \<noteq> VERSE_HISTORY \<and> IMAGE_HISTORY \<noteq> CACHED_DAILY_VERSE \<and> IMAGE_HISTORY \<noteq> CACHED_DAILY_IMAGE \<and>
   IMAGE_HISTORY \<noteq> API_USAGE \<and> IMAGE_HISTORY \<noteq> VERSE_ROTATION \<and> IMAGE_HISTORY \<noteq> CUSTOM_IMAGE_HISTORY \<and>
   CACHED_DAILY_VERSE \<noteq> SETTINGS \<and> CACHED_DAILY_VERSE \<noteq> VERSE_HISTORY \<and> CACHED_DAILY_VERSE \<noteq> IMAGE_HISTORY \<and>
   CACHED_DAILY_VERSE \<noteq> CACHED_DAILY_IMAGE \<and> CACHED_DAILY_VERSE \<noteq> API_USAGE \<and> CACHED_DAILY_VERSE \<noteq> VERSE_ROTATION \<and>
   CACHED_DAILY_VERSE \<noteq> CUSTOM_IMAGE_HISTORY \<and> CACHED_DAILY_IMAGE \<noteq> SETTINGS \<and> CACHED_DAILY_IMAGE \<noteq> VERSE_HISTORY \<and>
   CACHED_DAILY_IMAGE \<noteq> IMAGE_HISTORY \<and> CACHED_DAILY_IMAGE \<noteq> CACHED_DAILY_VERSE \<and> CACHED_DAILY_IMAGE \<noteq> API_USAGE \<and>
   CACHED_DAILY_IMAGE \<noteq> VERSE_ROTATION \<and> CACHED_DAILY_IMAGE \<noteq> CUSTOM_IMAGE_HISTORY \<and> API_USAGE \<noteq> SETTINGS \<and>
   API_USAGE \<noteq> VERSE_HISTORY \<and> API_USAGE \<noteq> IMAGE_HISTORY \<and> API_USAGE \<noteq> CACHED_DAILY_VERSE \<and>
   API_USAGE \<noteq> CACHED_DAILY_IMAGE \<and> API_USAGE \<noteq> VERSE_ROTATION \<and> API_USAGE \<noteq> CUSTOM_IMAGE_HISTORY \<and>
   VERSE_ROTATION \<noteq> SETTINGS \<and> VERSE_ROTATION \<noteq> VERSE_HISTORY \<and> VERSE_ROTATION \<noteq> IMAGE_HISTORY \<and>
   VERSE_ROTATION \<noteq> CACHED_DAILY_VERSE \<and> VERSE_ROTATION \<noteq> CACHED_DAILY_IMAGE \<and> VERSE_ROTATION \<noteq> API_USAGE \<and>
   VERSE_ROTATION \<noteq> CUSTOM_IMAGE_HISTORY \<and> CUSTOM_IMAGE_HISTORY \<noteq> SETTINGS \<and> CUSTOM_IMAGE_HISTORY \<noteq> VERSE_HISTORY \<and>
   CUSTOM_IMAGE_HISTORY \<noteq> IMAGE_HISTORY \<and> CUSTOM_IMAGE_HISTORY \<noteq> CACHED_DAILY_VERSE \<and> CUSTOM_IMAGE_HISTORY \<noteq> CACHED_DAILY_IMAGE \<and>
   CUSTOM_IMAGE_HISTORY \<noteq> API_USAGE \<and> CUSTOM_IMAGE_HISTORY \<noteq> VERSE_ROTATION"
  by (simp add: SETTINGS_def VERSE_HISTORY_def IMAGE_HISTORY_def CACHED_DAILY_VERSE_def CACHED_DAILY_IMAGE_def API_USAGE_def VERSE_ROTATION_def CUSTOM_IMAGE_HISTORY_def js_def)

lemma CACHED_DAILY_IMAGE_literal: "js ''cached-daily-image'' = CACHED_DAILY_IMAGE"
  by (simp add: CACHED_DAILY_IMAGE_def)

lemma get_set_store: "get (set_store k v sto) k' d = (if k' = k then v else get sto k' d)"
  by (simp add: get_def set_store_def)

lemma set_store_apply: "set_store k v sto k' = (if k' = k then Some v else sto k')"
  by (simp add: set_store_def)

text \<open>
  Claim C6. When the partial settings contain \<open>backgroundMode\<close>, \<open>backgroundSource\<close> or
  \<open>enabledCategories\<close>, \<open>updateSettings\<close> sets the cached daily image to \<open>null\<close>; when
  they contain none of the three, the cached daily image is as before. In both cases the
  settings blob is the merged object, and every other key of the store is unchanged.
\<close>

theorem updateSettings_clears_cached_image_only:
  "(partial (js ''backgroundMode'') \<noteq> None \<or> partial (js ''backgroundSource'') \<noteq> None
      \<or> partial (js ''enabledCategories'') \<noteq> None
      \<longrightarrow> snd (updateSettings partial sto) CACHED_DAILY_IMAGE = Some JNull) \<and>
   (partial (js ''backgroundMode'') = None \<and> partial (js ''backgroundSource'') = None
      \<and> partial (js ''enabledCategories'') = None
      \<longrightarrow> snd (updateSettings partial sto) CACHED_DAILY_IMAGE = sto CACHED_DAILY_IMAGE) \<and>
   snd (updateSettings partial sto) SETTINGS = Some (JSettings (fst (updateSettings partial sto))) \<and>
   (\<forall>key. key \<noteq> SETTINGS \<and> key \<noteq> CACHED_DAILY_IMAGE
      \<longrightarrow> snd (updateSettings partial sto) key = sto key)"
  by (simp add: updateSettings_def Let_def set_store_apply CACHED_DAILY_IMAGE_literal)

theorem updateSettings_clears_cached_image_only_witness:
  "snd (updateSettings [js ''backgroundSource'' \<mapsto> VStr (js ''custom'')] sampleStorage) CACHED_DAILY_IMAGE
     = Some JNull \<and>
   snd (updateSettings [js ''backgroundSource'' \<mapsto> VStr (js ''custom'')] sampleStorage) VERSE_HISTORY
     = Some (JIds [js ''john-3-16'']) \<and>
   snd (updateSettings [js ''theme'' \<mapsto> VStr (js ''dark'')] sampleStorage) CACHED_DAILY_IMAGE
     = Some (JCachedImage \<lparr>ci_date = js ''2024-01-15'', ci_image = Some sampleImage\<rparr>) \<and>
   snd (updateSettings [js ''theme'' \<mapsto> VStr (js ''dark'')] sampleStorage) VERSE_HISTORY
     = Some (JIds [js ''john-3-16''])"
proof -
  let ?p1 = "[js ''backgroundSource'' \<mapsto> VStr (js ''custom'')]"
  let ?p2 = "[js ''theme'' \<mapsto> VStr (js ''dark'')]"
  note t1 = updateSettings_clears_cached_image_only [of ?p1 sampleStorage]
  note t2 = updateSettings_clears_cached_image_only [of ?p2 sampleStorage]
  have in1: "?p1 (js ''backgroundSource'') \<noteq> None" by simp
  have out2: "?p2 (js ''backgroundMode'') = None \<and> ?p2 (js ''backgroundSource'') = None
                \<and> ?p2 (js ''enabledCategories'') = None"
    by (simp add: js_def)
  have k: "VERSE_HISTORY \<noteq> SETTINGS \<and> VERSE_HISTORY \<noteq> CACHED_DAILY_IMAGE" by simp
  have a: "snd (updateSettings ?p1 sampleStorage) CACHED_DAILY_IMAGE = Some JNull"
    using t1 in1 by blast
  have b: "snd (updateSettings ?p1 sampleStorage) VERSE_HISTORY = sampleStorage VERSE_HISTORY"
    using t1 k by blast
  have c: "snd (updateSettings ?p2 sampleStorage) CACHED_DAILY_IMAGE = sampleStorage CACHED_DAILY_IMAGE"
    using t2 out2 by blast
  have d: "snd (updateSettings ?p2 sampleStorage) VERSE_HISTORY = sampleStorage VERSE_HISTORY"
    using t2 k by blast
  have s1: "sampleStorage VERSE_HISTORY = Some (JIds [js ''john-3-16''])"
    by (simp add: sampleStorage_def)
  have s2: "sampleStorage CACHED_DAILY_IMAGE
              = Some (JCachedImage \<lparr>ci_date = js ''2024-01-15'', ci_image = Some sampleImage\<rparr>)"
    by (simp add: sampleStorage_def)
  from a b c d s1 s2 show ?thesis by simp
qed

lemma getApiUsage_set_API_USAGE:
  "date u = isoDate clk \<Longrightarrow> getApiUsage clk (set_store API_USAGE (JUsage u) sto) = u"
  by (simp add: getApiUsage_def get_set_store Let_def)

lemma getApiUsage_date: "date (getApiUsage clk sto) = isoDate clk"
  by (simp add: getApiUsage_def Let_def split: stored.splits option.splits)

lemma getApiUsage_other_key:
  "k \<noteq> API_USAGE \<Longrightarrow> getApiUsage clk (set_store k v sto) = getApiUsage clk sto"
  by (simp add: getApiUsage_def get_set_store)

subsection \<open>Reads of one key after writes to another\<close>

lemma getSettings_other_key:
  "k \<noteq> SETTINGS \<Longrightarrow> getSettings (set_store k v sto) = getSettings sto"
  by (simp add: getSettings_def get_set_store)

lemma getVerseRotationIndex_other_key:
  "k \<noteq> VERSE_ROTATION \<Longrightarrow> getVerseRotationIndex (set_store k v sto) = getVerseRotationIndex sto"
  by (simp add: getVerseRotationIndex_def get_set_store)


lemma reads_after_cacheDailyVerse [simp]:
  "getSettings (cacheDailyVerse clk v sto) = getSettings sto"
  "getApiUsage clk' (cacheDailyVerse clk v sto) = getApiUsage clk' sto"
  "getVerseRotationIndex (cacheDailyVerse clk v sto) = getVerseRotationIndex sto"
  "cacheDailyVerse clk v sto VERSE_ROTATION = sto VERSE_ROTATION"
  "cacheDailyVerse clk v sto API_USAGE = sto API_USAGE"
  by (simp_all add: cacheDailyVerse_def getSettings_other_key getApiUsage_other_key
        getVerseRotationIndex_other_key set_store_apply)




lemma loadNKJVVerses_frame [simp]:
  "requests (snd (loadNKJVVerses env st)) = requests st"
  "storage (snd (loadNKJVVerses env st)) = storage st"
  by (simp_all add: loadNKJVVerses_def split: option.splits)

lemma getNKJVFallback_requests [simp]:
  "requests (snd (getNKJVFallback env mode st)) = requests st"
proof -
  obtain verses st1 where l: "loadNKJVVerses env st = (verses, st1)"
    by (cases "loadNKJVVerses env st")
  then have "requests st1 = requests st"
    using loadNKJVVerses_frame(1) [of env st] by simp
  then show ?thesis
    by (simp add: getNKJVFallback_def l Let_def split: option.splits sum.splits)
qed





lemma exhaustedState_reads:
  "preferredTranslation (getSettings (storage exhaustedState)) = VStr (js ''ESV'')"
  "storage exhaustedState VERSE_ROTATION = Some (JRotation \<lparr>index = 0, updatedAt = None\<rparr>)"
  "getVerseRotationIndex (storage exhaustedState) = 0"
  "getCachedDailyVerse (clock sampleEnv) (storage exhaustedState) = Some verseB"
  "requests exhaustedState = []"
  by (simp_all add: exhaustedState_def sampleEnv_def preferredTranslation_def getSettings_def
        get_def spread_def DEFAULT_SETTINGS_def getVerseRotationIndex_def getCachedDailyVerse_def
        isoDate_def js_def SETTINGS_def VERSE_ROTATION_def CACHED_DAILY_VERSE_def API_USAGE_def)








subsection \<open>The usage record through a call of getVerse\<close>

lemma addToHistory_other_key:
  "addToHistory k i m sto = Inr sto' \<Longrightarrow> k \<noteq> API_USAGE \<Longrightarrow> getApiUsage clk sto' = getApiUsage clk sto"
  by (auto simp: addToHistory_def Let_def getApiUsage_other_key split: sum.splits)

lemma getNKJVFallback_usage [simp]:
  "getApiUsage clk (storage (snd (getNKJVFallback env mode st))) = getApiUsage clk (storage st)"
proof -
  obtain verses st1 where l: "loadNKJVVerses env st = (verses, st1)"
    by (cases "loadNKJVVerses env st")
  then have "storage st1 = storage st"
    using loadNKJVVerses_frame(2) [of env st] by simp
  then show ?thesis
    by (auto simp: getNKJVFallback_def l Let_def addToHistory_other_key
          split: option.splits sum.splits)
qed

lemma fetchFromESV_storage [simp]: "storage (snd (fetchFromESV env ref st)) = storage st"
  by (simp add: fetchFromESV_def Let_def split: esvReply.splits option.splits list.splits)

lemma fetchVerseFromESV_storage [simp]: "storage (snd (fetchVerseFromESV env mode st)) = storage st"
proof -
  have d: "storage (snd (getDailyVerseReference env st)) = storage st"
    using loadNKJVVerses_frame(2) [of env st]
    by (cases "loadNKJVVerses env st") (simp add: getDailyVerseReference_def split: option.splits)
  have r: "storage (snd (getRandomVerseReference env st)) = storage st"
    using loadNKJVVerses_frame(2) [of env st]
    by (cases "loadNKJVVerses env st") (simp add: getRandomVerseReference_def Let_def split: option.splits)
  show ?thesis
  proof (cases "mode = js ''daily''")
    case True
    then show ?thesis using d
      by (cases "getDailyVerseReference env st")
         (auto simp: fetchVerseFromESV_def split: sum.splits)
  next
    case False
    then show ?thesis using r
      by (cases "getRandomVerseReference env st")
         (auto simp: fetchVerseFromESV_def split: sum.splits)
  qed
qed

lemma cycleFetchedVerses_usage [simp]:
  "getApiUsage clk (storage (snd (cycleFetchedVerses env mode st))) = getApiUsage clk (storage st)"
  by (auto simp: cycleFetchedVerses_def Let_def incrementVerseRotationIndex_def getApiUsage_other_key
        split: sum.splits prod.splits stored.splits)

lemma reuseFetchedVerses_usage [simp]:
  "getApiUsage clk (storage (snd (reuseFetchedVerses env mode st))) = getApiUsage clk (storage st)"
  by (simp add: reuseFetchedVerses_def Let_def)

lemma getVerse_usage:
  "getApiUsage (clock env) (storage (snd (getVerse env mode force st))) = getApiUsage (clock env) (storage st)
   \<or> (\<exists>v. getApiUsage (clock env) (storage (snd (getVerse env mode force st)))
            = fst (recordApiCall (clock env) v (storage st)))"
proof -
  let ?clk = "clock env"
  have rec: "\<And>v sto. getApiUsage ?clk (snd (recordApiCall ?clk v sto)) = fst (recordApiCall ?clk v sto)"
    by (simp add: recordApiCall_def Let_def getApiUsage_set_API_USAGE getApiUsage_date)
  have nk: "\<And>m b. getApiUsage ?clk (storage (snd (case getNKJVFallback env m st of
                  (Inl e, st1) \<Rightarrow> (Inl e, st1)
                | (Inr v, st1) \<Rightarrow>
                    (Inr v, if b
                            then st1\<lparr>storage := cacheDailyVerse (clock env) v (storage st1)\<rparr>
                            else st1)))) = getApiUsage ?clk (storage st)"
  proof -
    fix m b
    show "getApiUsage ?clk (storage (snd (case getNKJVFallback env m st of
                  (Inl e, st1) \<Rightarrow> (Inl e, st1)
                | (Inr v, st1) \<Rightarrow>
                    (Inr v, if b
                            then st1\<lparr>storage := cacheDailyVerse (clock env) v (storage st1)\<rparr>
                            else st1)))) = getApiUsage ?clk (storage st)"
      using getNKJVFallback_usage [of ?clk env m st]
      by (cases "getNKJVFallback env m st") (auto split: sum.splits)
  qed
  have forced: "\<And>m. getApiUsage ?clk (storage (snd (getVerseForced env m st))) = getApiUsage ?clk (storage st)
      \<or> (\<exists>v. getApiUsage ?clk (storage (snd (getVerseForced env m st))) = fst (recordApiCall ?clk v (storage st)))"
  proof -
    fix m
    obtain r st1 where f: "fetchVerseFromESV env m st = (r, st1)"
      by (cases "fetchVerseFromESV env m st")
    then have s1: "storage st1 = storage st"
      using fetchVerseFromESV_storage [of env m st] by simp
    show "getApiUsage ?clk (storage (snd (getVerseForced env m st))) = getApiUsage ?clk (storage st)
      \<or> (\<exists>v. getApiUsage ?clk (storage (snd (getVerseForced env m st))) = fst (recordApiCall ?clk v (storage st)))"
    proof (cases r)
      case (Inl e)
      then show ?thesis
        using cycleFetchedVerses_usage [of ?clk env m st1]
        by (simp add: getVerseForced_def f s1)
    next
      case (Inr v)
      show ?thesis
      proof (cases "canMakeApiCall ?clk (storage st)")
        case True
        have "getApiUsage ?clk (storage (snd (getVerseForced env m st))) = fst (recordApiCall ?clk v (storage st))"
          using rec [of v "storage st"] True Inr
          by (cases "recordApiCall ?clk v (storage st)") (auto simp: getVerseForced_def f s1)
        then show ?thesis by blast
      next
        case False
        then show ?thesis
          using cycleFetchedVerses_usage [of ?clk env m st]
          by (simp add: getVerseForced_def)
      qed
    qed
  qed
  have normal: "\<And>m. getApiUsage ?clk (storage (snd (getVerseNormal env m st))) = getApiUsage ?clk (storage st)
      \<or> (\<exists>v. getApiUsage ?clk (storage (snd (getVerseNormal env m st))) = fst (recordApiCall ?clk v (storage st)))"
  proof -
    fix m
    obtain r st1 where f: "fetchVerseFromESV env m st = (r, st1)"
      by (cases "fetchVerseFromESV env m st")
    then have s1: "storage st1 = storage st"
      using fetchVerseFromESV_storage [of env m st] by simp
    show "getApiUsage ?clk (storage (snd (getVerseNormal env m st))) = getApiUsage ?clk (storage st)
      \<or> (\<exists>v. getApiUsage ?clk (storage (snd (getVerseNormal env m st))) = fst (recordApiCall ?clk v (storage st)))"
    proof (cases r)
      case (Inl e)
      then show ?thesis
        using reuseFetchedVerses_usage [of ?clk env m st1]
        by (simp add: getVerseNormal_def f s1)
    next
      case (Inr v)
      show ?thesis
      proof (cases "canMakeApiCall ?clk (storage st)")
        case True
        have "getApiUsage ?clk (storage (snd (getVerseNormal env m st))) = fst (recordApiCall ?clk v (storage st))"
          using rec [of v "storage st"] True Inr
          by (cases "recordApiCall ?clk v (storage st)") (auto simp: getVerseNormal_def f s1)
        then show ?thesis by blast
      next
        case False
        then show ?thesis
          using reuseFetchedVerses_usage [of ?clk env m st]
          by (simp add: getVerseNormal_def)
      qed
    qed
  qed
  show ?thesis
    using forced [of mode] normal [of mode]
    by (auto simp: getVerse_def Let_def nk split: option.splits)
qed


subsection \<open>The cached daily verse does not influence a recomputation\<close>

lemma reads_without_cached_verse [simp]:
  "getSettings (sto(CACHED_DAILY_VERSE := x)) = getSettings sto"
  "getApiUsage clk (sto(CACHED_DAILY_VERSE := x)) = getApiUsage clk sto"
  "getVerseRotationIndex (sto(CACHED_DAILY_VERSE := x)) = getVerseRotationIndex sto"
  "getHistory (sto(CACHED_DAILY_VERSE := x)) VERSE_HISTORY = getHistory sto VERSE_HISTORY"
  "canMakeApiCall clk (sto(CACHED_DAILY_VERSE := x)) = canMakeApiCall clk sto"
  "getTodaysFetchedVerses clk (sto(CACHED_DAILY_VERSE := x)) = getTodaysFetchedVerses clk sto"
  by (simp_all add: getSettings_def getApiUsage_def getVerseRotationIndex_def getHistory_def
        canMakeApiCall_def getTodaysFetchedVerses_def get_def)

lemma loadNKJVVerses_storage_update:
  "loadNKJVVerses env (st\<lparr>storage := X\<rparr>)
     = (fst (loadNKJVVerses env st), (snd (loadNKJVVerses env st))\<lparr>storage := X\<rparr>)"
  by (simp add: loadNKJVVerses_def split: option.splits)

lemma getNKJVFallback_without_cached_verse:
  "fst (getNKJVFallback env mode (st\<lparr>storage := (storage st)(CACHED_DAILY_VERSE := x)\<rparr>))
     = fst (getNKJVFallback env mode st)"
proof -
  obtain verses st1 where l: "loadNKJVVerses env st = (verses, st1)"
    by (cases "loadNKJVVerses env st")
  then have s1: "storage st1 = storage st"
    using loadNKJVVerses_frame(2) [of env st] by simp
  have l': "loadNKJVVerses env (st\<lparr>storage := (storage st)(CACHED_DAILY_VERSE := x)\<rparr>)
              = (verses, st1\<lparr>storage := (storage st)(CACHED_DAILY_VERSE := x)\<rparr>)"
    by (simp add: loadNKJVVerses_storage_update l)
  have a: "\<And>i m. (\<exists>e. addToHistory VERSE_HISTORY i m ((storage st)(CACHED_DAILY_VERSE := x)) = Inl e)
                 = (\<exists>e. addToHistory VERSE_HISTORY i m (storage st) = Inl e)"
    by (simp add: addToHistory_def get_def Let_def split: sum.splits)
  show ?thesis
    using a
    by (auto simp: getNKJVFallback_def l l' s1 Let_def addToHistory_def get_def
          split: option.splits sum.splits)
qed

lemma fetchVerseFromESV_storage_update:
  "fetchVerseFromESV env mode (st\<lparr>storage := X\<rparr>)
     = (fst (fetchVerseFromESV env mode st), (snd (fetchVerseFromESV env mode st))\<lparr>storage := X\<rparr>)"
  by (simp add: fetchVerseFromESV_def getDailyVerseReference_def getRandomVerseReference_def
        fetchFromESV_def loadNKJVVerses_storage_update Let_def
        split: prod.splits option.splits sum.splits esvReply.splits list.splits)

lemma reuseFetchedVerses_without_cached_verse:
  "fst (reuseFetchedVerses env mode (st\<lparr>storage := (storage st)(CACHED_DAILY_VERSE := x)\<rparr>))
     = fst (reuseFetchedVerses env mode st)"
  by (simp add: reuseFetchedVerses_def Let_def getNKJVFallback_without_cached_verse)

lemma getVerseNormal_without_cached_verse:
  "fst (getVerseNormal env mode (st\<lparr>storage := (storage st)(CACHED_DAILY_VERSE := x)\<rparr>))
     = fst (getVerseNormal env mode st)"
proof -
  obtain r st1 where f: "fetchVerseFromESV env mode st = (r, st1)"
    by (cases "fetchVerseFromESV env mode st")
  then have s1: "storage st1 = storage st"
    using fetchVerseFromESV_storage [of env mode st] by simp
  have f': "fetchVerseFromESV env mode (st\<lparr>storage := (storage st)(CACHED_DAILY_VERSE := x)\<rparr>)
              = (r, st1\<lparr>storage := (storage st1)(CACHED_DAILY_VERSE := x)\<rparr>)"
    by (simp add: fetchVerseFromESV_storage_update f s1)
  show ?thesis
    using reuseFetchedVerses_without_cached_verse [of env mode st1 x]
          reuseFetchedVerses_without_cached_verse [of env mode st x]
    by (cases r) (simp_all add: getVerseNormal_def f f' split: prod.splits)
qed

lemma cache_eligibility:
  assumes "storage st CACHED_DAILY_VERSE = Some (JCachedVerse c)"
    and "cv_date c = isoDate (clock env)"
  shows "(VStr (translation (cv_verse c)) = preferredTranslation (getSettings (storage st))
            \<longrightarrow> getVerse env (js ''daily'') False st = (Inr (cv_verse c), st)) \<and>
         (VStr (translation (cv_verse c)) \<noteq> preferredTranslation (getSettings (storage st))
            \<longrightarrow> fst (getVerse env (js ''daily'') False st)
                  = fst (getVerse env (js ''daily'') False
                           (st\<lparr>storage := (storage st)(CACHED_DAILY_VERSE := None)\<rparr>)))"
proof (intro conjI impI)
  have cached: "getCachedDailyVerse (clock env) (storage st) = Some (cv_verse c)"
    using assms by (simp add: getCachedDailyVerse_def get_def)
  {
    assume "VStr (translation (cv_verse c)) = preferredTranslation (getSettings (storage st))"
    then show "getVerse env (js ''daily'') False st = (Inr (cv_verse c), st)"
      by (simp add: getVerse_def cached Let_def)
  next
    assume ne: "VStr (translation (cv_verse c)) \<noteq> preferredTranslation (getSettings (storage st))"
    let ?st' = "st\<lparr>storage := (storage st)(CACHED_DAILY_VERSE := None)\<rparr>"
    have none: "getCachedDailyVerse (clock env) ((storage st)(CACHED_DAILY_VERSE := None)) = None"
      by (simp add: getCachedDailyVerse_def get_def)
    have nk: "\<And>b s. fst (case getNKJVFallback env (js ''daily'') s of
                  (Inl e, st1) \<Rightarrow> (Inl e, st1)
                | (Inr v, st1) \<Rightarrow>
                    (Inr v, if b
                            then st1\<lparr>storage := cacheDailyVerse (clock env) v (storage st1)\<rparr>
                            else st1)) = fst (getNKJVFallback env (js ''daily'') s)"
      by (simp split: prod.splits sum.splits)
    show "fst (getVerse env (js ''daily'') False st) = fst (getVerse env (js ''daily'') False ?st')"
      using ne
      by (simp add: getVerse_def cached none Let_def nk getNKJVFallback_without_cached_verse
            getVerseNormal_without_cached_verse)
  }
qed

lemma updateSettings_translation:
  "preferredTranslation
     (getSettings (snd (updateSettings [js ''translation'' \<mapsto> VStr t] sto)))
     = VStr (if t = [] then js ''ESV'' else t)"
proof -
  have k1: "js ''translation'' \<noteq> js ''enabledCategories''" by (simp add: js_def)
  have k2: "js ''backgroundMode'' \<noteq> js ''translation''" "js ''backgroundSource'' \<noteq> js ''translation''"
    by (simp_all add: js_def)
  have "getSettings (snd (updateSettings [js ''translation'' \<mapsto> VStr t] sto)) (js ''translation'')
          = Some (VStr t)"
    using k1 k2 by (simp add: updateSettings_def getSettings_def get_set_store spread_def Let_def)
  then show ?thesis
    by (simp add: preferredTranslation_def)
qed

lemma updateSettings_keeps_cached_verse:
  "snd (updateSettings partial sto) CACHED_DAILY_VERSE = sto CACHED_DAILY_VERSE"
  by (simp add: updateSettings_def Let_def set_store_apply CACHED_DAILY_IMAGE_literal)

text \<open>Every verse of the offline path is marked NKJV.\<close>

lemma getNKJVFallback_translation:
  assumes "fst (getNKJVFallback env mode st) = Inr v"
  shows "translation v = js ''NKJV''"
  using assms
  by (cases "loadNKJVVerses env st")
     (auto simp: getNKJVFallback_def offlineVerse_def Let_def
           split: if_splits option.splits sum.splits)

lemma nkjv_recomputation_differs:
  assumes "storage st CACHED_DAILY_VERSE = Some (JCachedVerse c)"
    and "cv_date c = isoDate (clock env)"
    and "preferredTranslation (getSettings (storage st)) = VStr (js ''NKJV'')"
    and "translation (cv_verse c) \<noteq> js ''NKJV''"
  shows "fst (getVerse env (js ''daily'') False st) \<noteq> Inr (cv_verse c)"
proof
  assume eq: "fst (getVerse env (js ''daily'') False st) = Inr (cv_verse c)"
  have cached: "getCachedDailyVerse (clock env) (storage st) = Some (cv_verse c)"
    using assms(1,2) by (simp add: getCachedDailyVerse_def get_def)
  have nk: "\<And>b. fst (case getNKJVFallback env (js ''daily'') st of
                  (Inl e, st1) \<Rightarrow> (Inl e, st1)
                | (Inr v, st1) \<Rightarrow>
                    (Inr v, if b
                            then st1\<lparr>storage := cacheDailyVerse (clock env) v (storage st1)\<rparr>
                            else st1))
              = fst (getNKJVFallback env (js ''daily'') st)"
    by (simp split: prod.splits sum.splits)
  have "fst (getVerse env (js ''daily'') False st) = fst (getNKJVFallback env (js ''daily'') st)"
    using assms(3,4) by (simp add: getVerse_def cached Let_def nk)
  with eq have "fst (getNKJVFallback env (js ''daily'') st) = Inr (cv_verse c)"
    by simp
  then have "translation (cv_verse c) = js ''NKJV''"
    by (rule getNKJVFallback_translation)
  with assms(4) show False by simp
qed

text \<open>
  Claim C4. (as amended) For a cached daily verse whose date is today, let the preferred
  translation be set by \<open>updateSettings({ translation: t })\<close>; the entry stays in the
  store, and the preference in force is \<open>t\<close>, or ESV when \<open>t\<close> is the empty string.
  When that differs from the translation of the cached verse, the entry is not eligible:
  \<open>getVerse('daily', false)\<close> computes the verse anew and returns what it returns on the
  store without the entry, which may be a verse equal to the cached one; with \<open>t\<close> NKJV
  it is never the cached one. When it is the translation of the cached verse, the call
  returns the cached verse and changes nothing. The same holds of any store, for the
  preference that its settings give.
\<close>

theorem cached_verse_needs_matching_translation:
  assumes "storage st CACHED_DAILY_VERSE = Some (JCachedVerse c)"
    and "cv_date c = isoDate (clock env)"
    and "st2 = st\<lparr>storage := snd (updateSettings [js ''translation'' \<mapsto> VStr t] (storage st))\<rparr>"
  shows "storage st2 CACHED_DAILY_VERSE = Some (JCachedVerse c) \<and>
         preferredTranslation (getSettings (storage st2)) = VStr (if t = [] then js ''ESV'' else t) \<and>
         ((if t = [] then js ''ESV'' else t) = translation (cv_verse c)
            \<longrightarrow> getVerse env (js ''daily'') False st2 = (Inr (cv_verse c), st2)) \<and>
         ((if t = [] then js ''ESV'' else t) \<noteq> translation (cv_verse c)
            \<longrightarrow> fst (getVerse env (js ''daily'') False st2)
                  = fst (getVerse env (js ''daily'') False
                           (st2\<lparr>storage := (storage st2)(CACHED_DAILY_VERSE := None)\<rparr>))) \<and>
         (t = js ''NKJV'' \<and> translation (cv_verse c) \<noteq> js ''NKJV''
            \<longrightarrow> fst (getVerse env (js ''daily'') False st2) \<noteq> Inr (cv_verse c)) \<and>
         (VStr (translation (cv_verse c)) = preferredTranslation (getSettings (storage st))
            \<longrightarrow> getVerse env (js ''daily'') False st = (Inr (cv_verse c), st)) \<and>
         (VStr (translation (cv_verse c)) \<noteq> preferredTranslation (getSettings (storage st))
            \<longrightarrow> fst (getVerse env (js ''daily'') False st)
                  = fst (getVerse env (js ''daily'') False
                           (st\<lparr>storage := (storage st)(CACHED_DAILY_VERSE := None)\<rparr>)))"
proof -
  let ?eff = "if t = [] then js ''ESV'' else t"
  have c2: "storage st2 CACHED_DAILY_VERSE = Some (JCachedVerse c)"
    using assms(1,3) by (simp add: updateSettings_keeps_cached_verse)
  have p2: "preferredTranslation (getSettings (storage st2)) = VStr ?eff"
    using assms(3) by (simp add: updateSettings_translation)
  note a = cache_eligibility [OF assms(1,2)]
  note b = cache_eligibility [OF c2 assms(2)]
  from b have b1: "?eff = translation (cv_verse c)
            \<longrightarrow> getVerse env (js ''daily'') False st2 = (Inr (cv_verse c), st2)"
    unfolding p2 by auto
  from b have b2: "?eff \<noteq> translation (cv_verse c)
            \<longrightarrow> fst (getVerse env (js ''daily'') False st2)
                  = fst (getVerse env (js ''daily'') False
                           (st2\<lparr>storage := (storage st2)(CACHED_DAILY_VERSE := None)\<rparr>))"
    unfolding p2 by auto
  have b3: "t = js ''NKJV'' \<and> translation (cv_verse c) \<noteq> js ''NKJV''
            \<longrightarrow> fst (getVerse env (js ''daily'') False st2) \<noteq> Inr (cv_verse c)"
  proof
    assume h: "t = js ''NKJV'' \<and> translation (cv_verse c) \<noteq> js ''NKJV''"
    then have "?eff = js ''NKJV''" by (simp add: js_def)
    with p2 have "preferredTranslation (getSettings (storage st2)) = VStr (js ''NKJV'')"
      by simp
    from nkjv_recomputation_differs [OF c2 assms(2) this] h
    show "fst (getVerse env (js ''daily'') False st2) \<noteq> Inr (cv_verse c)"
      by blast
  qed
  from c2 p2 a b1 b2 b3 show ?thesis by blast
qed

lemma exhaustedState_cached:
  "storage exhaustedState CACHED_DAILY_VERSE
     = Some (JCachedVerse \<lparr>cv_date = js ''2024-01-15'', cv_verse = verseB\<rparr>)"
  "cv_date \<lparr>cv_date = js ''2024-01-15'', cv_verse = verseB\<rparr> = isoDate (clock sampleEnv)"
  by (simp_all add: exhaustedState_def sampleEnv_def isoDate_def js_def
        SETTINGS_def VERSE_ROTATION_def CACHED_DAILY_VERSE_def API_USAGE_def)

theorem cached_verse_needs_matching_translation_witness:
  "getVerse sampleEnv (js ''daily'') False exhaustedState = (Inr verseB, exhaustedState) \<and>
   fst (getVerse sampleEnv (js ''daily'') False
          (exhaustedState\<lparr>storage :=
             snd (updateSettings [js ''translation'' \<mapsto> VStr (js ''NKJV'')] (storage exhaustedState))\<rparr>))
     = fst (getVerse sampleEnv (js ''daily'') False
             (exhaustedState\<lparr>storage :=
                (snd (updateSettings [js ''translation'' \<mapsto> VStr (js ''NKJV'')] (storage exhaustedState)))
                  (CACHED_DAILY_VERSE := None)\<rparr>)) \<and>
   fst (getVerse sampleEnv (js ''daily'') False
          (exhaustedState\<lparr>storage :=
             snd (updateSettings [js ''translation'' \<mapsto> VStr (js ''NKJV'')] (storage exhaustedState))\<rparr>))
     \<noteq> Inr verseB \<and>
   fst (getVerse sampleEnv (js ''daily'') False
          (exhaustedState\<lparr>storage :=
             snd (updateSettings [js ''translation'' \<mapsto> VStr []] (storage exhaustedState))\<rparr>))
     = Inr verseB"
proof -
  let ?st2 = "exhaustedState\<lparr>storage :=
             snd (updateSettings [js ''translation'' \<mapsto> VStr (js ''NKJV'')] (storage exhaustedState))\<rparr>"
  let ?st3 = "exhaustedState\<lparr>storage :=
             snd (updateSettings [js ''translation'' \<mapsto> VStr []] (storage exhaustedState))\<rparr>"
  note w = cached_verse_needs_matching_translation
             [OF exhaustedState_cached(1) exhaustedState_cached(2) refl, of "js ''NKJV''"]
  note e = cached_verse_needs_matching_translation
             [OF exhaustedState_cached(1) exhaustedState_cached(2) refl, of "[]"]
  have m: "VStr (translation (cv_verse \<lparr>cv_date = js ''2024-01-15'', cv_verse = verseB\<rparr>))
             = preferredTranslation (getSettings (storage exhaustedState))"
    by (simp add: exhaustedState_reads verseB_def)
  have n: "(if js ''NKJV'' = [] then js ''ESV'' else js ''NKJV'')
             \<noteq> translation (cv_verse \<lparr>cv_date = js ''2024-01-15'', cv_verse = verseB\<rparr>)"
    by (simp add: verseB_def js_def)
  have n': "js ''NKJV'' = js ''NKJV''
             \<and> translation (cv_verse \<lparr>cv_date = js ''2024-01-15'', cv_verse = verseB\<rparr>) \<noteq> js ''NKJV''"
    by (simp add: verseB_def js_def)
  have o: "(if [] = ([] :: jsstring) then js ''ESV'' else [])
             = translation (cv_verse \<lparr>cv_date = js ''2024-01-15'', cv_verse = verseB\<rparr>)"
    by (simp add: verseB_def)
  from w m have a: "getVerse sampleEnv (js ''daily'') False exhaustedState = (Inr verseB, exhaustedState)"
    by simp
  from w n have b: "fst (getVerse sampleEnv (js ''daily'') False ?st2)
     = fst (getVerse sampleEnv (js ''daily'') False
              (?st2\<lparr>storage := (storage ?st2)(CACHED_DAILY_VERSE := None)\<rparr>))"
    by blast
  from w n' have c: "fst (getVerse sampleEnv (js ''daily'') False ?st2)
                       \<noteq> Inr (cv_verse \<lparr>cv_date = js ''2024-01-15'', cv_verse = verseB\<rparr>)"
    by blast
  from e o have d: "getVerse sampleEnv (js ''daily'') False ?st3
                      = (Inr (cv_verse \<lparr>cv_date = js ''2024-01-15'', cv_verse = verseB\<rparr>), ?st3)"
    by blast
  from a b c d show ?thesis by simp
qed

text \<open>
  As first stated, with \<open>does not return the cached verse\<close>, the property fails. On a
  day without network the first call caches the NKJV verse of the day; the preferred
  translation is then set to ESV, which differs from NKJV; the fetch fails, no verse has
  been fetched today, and the offline path selects the verse of the day again: the call
  returns the very verse that is cached.
\<close>

theorem changed_translation_returns_cached_verse_counterexample:
  "getCachedDailyVerse (clock sampleEnv) (storage switchedState)
     = Some (offlineVerse (minimalFallback ! 0)) \<and>
   translation (offlineVerse (minimalFallback ! 0)) = js ''NKJV'' \<and>
   preferredTranslation (getSettings (storage switchedState)) = VStr (js ''ESV'') \<and>
   js ''ESV'' \<noteq> js ''NKJV'' \<and>
   fst (getVerse sampleEnv (js ''daily'') False switchedState)
     = Inr (offlineVerse (minimalFallback ! 0))"
proof -
  let ?v = "offlineVerse (minimalFallback ! 0)"
  have idx: "\<And>seed. getDailyIndex (clock sampleEnv) (length minimalFallback) seed = Some 0"
    by (simp add: getDailyIndex_def minimalFallback_def Let_def)
  have fb: "\<And>st. nkjvVerses st = None \<Longrightarrow> getNKJVFallback sampleEnv (js ''daily'') st = (Inr ?v, st)"
    using idx
    by (simp add: getNKJVFallback_def loadNKJVVerses_def sampleEnv_def arrayAt_def minimalFallback_def)
  have e: "preferredTranslation (getSettings (storage emptyState)) = VStr (js ''NKJV'')"
      "getCachedDailyVerse (clock sampleEnv) (storage emptyState) = None"
      "nkjvVerses emptyState = None"
    by (simp_all add: emptyState_def preferredTranslation_def getSettings_def get_def spread_def
          DEFAULT_SETTINGS_def getCachedDailyVerse_def js_def Let_def)
  have first: "offlineDayState
                 = emptyState\<lparr>storage := cacheDailyVerse (clock sampleEnv) ?v (storage emptyState)\<rparr>"
    using fb [OF e(3)]
    by (simp add: offlineDayState_def getVerse_def e Let_def)
  have cached: "getCachedDailyVerse (clock sampleEnv) (storage switchedState) = Some ?v"
    by (simp add: switchedState_def first getCachedDailyVerse_def get_def
          updateSettings_keeps_cached_verse cacheDailyVerse_def set_store_apply)
  have tr: "translation ?v = js ''NKJV''"
    by (simp add: offlineVerse_def)
  have "js ''ESV'' \<noteq> []"
    by (simp add: js_def)
  then have pref: "preferredTranslation (getSettings (storage switchedState)) = VStr (js ''ESV'')"
    by (simp add: switchedState_def updateSettings_translation)
  have ne: "js ''ESV'' \<noteq> js ''NKJV''"
    by (simp add: js_def)
  have none: "nkjvVerses switchedState = None" "snd (updateSettings [js ''translation'' \<mapsto> VStr (js ''ESV'')]
                  (storage offlineDayState)) API_USAGE = None"
    by (simp_all add: switchedState_def first emptyState_def updateSettings_def Let_def
          set_store_apply cacheDailyVerse_def CACHED_DAILY_IMAGE_literal)
  have usage: "getApiUsage (clock sampleEnv) (storage switchedState)
                 = \<lparr>date = isoDate (clock sampleEnv), callCount = 0, fetchedVerses = []\<rparr>"
    using none(2) by (simp add: switchedState_def getApiUsage_def get_def Let_def)
  have can: "canMakeApiCall (clock sampleEnv) (storage switchedState)"
    by (simp add: canMakeApiCall_def usage MAX_DAILY_API_CALLS_def)
  obtain r st1 where f: "fetchVerseFromESV sampleEnv (js ''daily'') switchedState = (r, st1)"
    by (cases "fetchVerseFromESV sampleEnv (js ''daily'') switchedState")
  have fail: "\<exists>e. r = Inl e"
    using f
    by (auto simp: fetchVerseFromESV_def getDailyVerseReference_def fetchFromESV_def sampleEnv_def
          Let_def split: prod.splits sum.splits option.splits if_splits)
  have st1: "storage st1 = storage switchedState" "nkjvVerses st1 = None"
    using f none(1)
    by (auto simp: fetchVerseFromESV_def getDailyVerseReference_def fetchFromESV_def sampleEnv_def
          loadNKJVVerses_def Let_def split: prod.splits sum.splits option.splits if_splits)
  have reuse: "reuseFetchedVerses sampleEnv (js ''daily'') st1 = (Inr ?v, st1)"
    using fb [OF st1(2)]
    by (simp add: reuseFetchedVerses_def getTodaysFetchedVerses_def st1(1) usage)
  have normal: "getVerseNormal sampleEnv (js ''daily'') switchedState = (Inr ?v, st1)"
    using fail by (auto simp: getVerseNormal_def can f reuse)
  have ne2: "js ''NKJV'' \<noteq> js ''ESV''"
    by (simp add: js_def)
  have "fst (getVerse sampleEnv (js ''daily'') False switchedState) = Inr ?v"
    by (simp add: getVerse_def cached pref tr Let_def normal ne ne2)
  with cached tr pref ne show ?thesis by blast
qed

subsection \<open>The cleaning of a fetched passage\<close>

lemma isWhitespace_32 [simp]: "isWhitespace 32"
  by (simp add: isWhitespace_def)

lemma noDoubleSpace_Cons:
  "noDoubleSpace (a # xs) = ((xs = [] \<or> \<not> (a = 32 \<and> hd xs = 32)) \<and> noDoubleSpace xs)"
  by (cases xs) simp_all

lemma noDoubleSpace_append: "noDoubleSpace (xs @ ys) \<Longrightarrow> noDoubleSpace xs \<and> noDoubleSpace ys"
proof (induction xs)
  case Nil
  then show ?case by simp
next
  case (Cons a xs)
  then show ?case
    by (cases xs) (auto simp: noDoubleSpace_Cons)
qed

lemma collapseWhitespace_head:
  "collapseWhitespace (dropWhile isWhitespace cs) = []
   \<or> \<not> isWhitespace (hd (collapseWhitespace (dropWhile isWhitespace cs)))"
proof (cases "dropWhile isWhitespace cs")
  case Nil
  then show ?thesis by (simp del: dropWhile_eq_Nil_conv)
next
  case (Cons d ds)
  then have "\<not> isWhitespace d"
    using hd_dropWhile [of isWhitespace cs] by simp
  then show ?thesis by (simp add: Cons)
qed

lemma collapseWhitespace_only_spaces:
  "list_all (\<lambda>c. isWhitespace c \<longrightarrow> c = 32) (collapseWhitespace str)"
  by (induction str rule: collapseWhitespace.induct) simp_all

lemma collapseWhitespace_noDoubleSpace: "noDoubleSpace (collapseWhitespace str)"
proof (induction str rule: collapseWhitespace.induct)
  case 1
  then show ?case by simp
next
  case (2 c cs)
  show ?case
  proof (cases "isWhitespace c")
    case True
    with 2 have ih: "noDoubleSpace (collapseWhitespace (dropWhile isWhitespace cs))" by simp
    from collapseWhitespace_head [of cs]
    have "collapseWhitespace (dropWhile isWhitespace cs) = []
          \<or> hd (collapseWhitespace (dropWhile isWhitespace cs)) \<noteq> 32"
      by auto
    with ih True show ?thesis by (simp add: noDoubleSpace_Cons)
  next
    case False
    with 2 have ih: "noDoubleSpace (collapseWhitespace cs)" by simp
    from False have "c \<noteq> 32" by auto
    with ih False show ?thesis by (simp add: noDoubleSpace_Cons)
  qed
qed

lemma filter_dropWhile_not: "filter (\<lambda>c. \<not> P c) (dropWhile P xs) = filter (\<lambda>c. \<not> P c) xs"
  by (induction xs) simp_all

lemma collapseWhitespace_keeps_text:
  "filter (\<lambda>c. \<not> isWhitespace c) (collapseWhitespace str) = filter (\<lambda>c. \<not> isWhitespace c) str"
  by (induction str rule: collapseWhitespace.induct) (simp_all add: filter_dropWhile_not)

lemma trim_keeps_text:
  "filter (\<lambda>c. \<not> isWhitespace c) (trim str) = filter (\<lambda>c. \<not> isWhitespace c) str"
proof -
  have "filter (\<lambda>c. \<not> isWhitespace c) (trim str)
          = rev (filter (\<lambda>c. \<not> isWhitespace c) (dropWhile isWhitespace (rev (dropWhile isWhitespace str))))"
    by (simp add: trim_def rev_filter)
  also have "\<dots> = rev (filter (\<lambda>c. \<not> isWhitespace c) (rev (dropWhile isWhitespace str)))"
    by (simp only: filter_dropWhile_not)
  also have "\<dots> = filter (\<lambda>c. \<not> isWhitespace c) (dropWhile isWhitespace str)"
    by (simp add: rev_filter)
  also have "\<dots> = filter (\<lambda>c. \<not> isWhitespace c) str"
    by (simp only: filter_dropWhile_not)
  finally show ?thesis .
qed

lemma rev_dropWhile_rev_decomposition:
  "xs = rev (dropWhile P (rev xs)) @ rev (takeWhile P (rev xs))"
proof -
  have "xs = rev (takeWhile P (rev xs) @ dropWhile P (rev xs))"
    by (simp only: takeWhile_dropWhile_id rev_rev_ident)
  then show ?thesis by (simp only: rev_append)
qed

lemma trim_decomposition:
  "\<exists>pre post. str = pre @ trim str @ post"
proof -
  let ?d = "dropWhile isWhitespace str"
  have a: "str = takeWhile isWhitespace str @ ?d" by simp
  have b: "?d = trim str @ rev (takeWhile isWhitespace (rev ?d))"
    unfolding trim_def by (rule rev_dropWhile_rev_decomposition)
  from b have "takeWhile isWhitespace str @ ?d
                 = takeWhile isWhitespace str @ trim str @ rev (takeWhile isWhitespace (rev ?d))"
    by (rule arg_cong)
  with a have "str = takeWhile isWhitespace str @ trim str @ rev (takeWhile isWhitespace (rev ?d))"
    by (rule trans)
  then show ?thesis by blast
qed

lemma trim_ends: "trim str = [] \<or> (\<not> isWhitespace (hd (trim str)) \<and> \<not> isWhitespace (last (trim str)))"
proof (cases "trim str = []")
  case True
  then show ?thesis by simp
next
  case False
  let ?d = "dropWhile isWhitespace str"
  let ?e = "dropWhile isWhitespace (rev ?d)"
  have t: "trim str = rev ?e" by (simp add: trim_def)
  with False have e: "?e \<noteq> []" by simp
  then have "\<not> isWhitespace (hd ?e)" by (rule hd_dropWhile)
  then have l: "\<not> isWhitespace (last (trim str))"
    using e by (simp add: t last_rev)
  have d: "?d = trim str @ rev (takeWhile isWhitespace (rev ?d))"
    unfolding trim_def by (rule rev_dropWhile_rev_decomposition)
  have dne: "?d \<noteq> []"
  proof
    assume "?d = []"
    with d have "trim str @ rev (takeWhile isWhitespace (rev ?d)) = []" by (simp only:)
    then have "trim str = []" by (simp only: append_is_Nil_conv)
    with False show False ..
  qed
  then have "\<not> isWhitespace (hd ?d)" by (rule hd_dropWhile)
  moreover have "hd ?d = hd (trim str)"
    using False by (subst d) simp
  ultimately have h: "\<not> isWhitespace (hd (trim str))" by simp
  from h l show ?thesis by simp
qed

lemma cleaned_text_normalised: "whitespaceNormalised (trim (collapseWhitespace str))"
proof -
  let ?c = "collapseWhitespace str"
  obtain pre post where dec: "?c = pre @ trim ?c @ post"
    using trim_decomposition [of ?c] by blast
  have "list_all (\<lambda>c. isWhitespace c \<longrightarrow> c = 32) (pre @ trim ?c @ post)"
    using collapseWhitespace_only_spaces [of str] dec by simp
  then have a: "list_all (\<lambda>c. isWhitespace c \<longrightarrow> c = 32) (trim ?c)" by simp
  have "noDoubleSpace (pre @ trim ?c @ post)"
    using collapseWhitespace_noDoubleSpace [of str] dec by simp
  then have b: "noDoubleSpace (trim ?c)"
    using noDoubleSpace_append by blast
  have c: "trim ?c = [] \<or> (hd (trim ?c) \<noteq> 32 \<and> last (trim ?c) \<noteq> 32)"
    using trim_ends [of ?c] by auto
  from a b c show ?thesis by (simp add: whitespaceNormalised_def)
qed


lemma fetchFromESV_text:
  assumes "fetchFromESV env ref st = (Inr v, st1)"
  shows "\<exists>passage more canonical. esvApi env ref = Body (Some (passage # more)) canonical
            \<and> vtext v = trim (collapseWhitespace passage)"
  using assms
  by (auto simp: fetchFromESV_def Let_def split: esvReply.splits option.splits list.splits)

lemma fetchVerseFromESV_text:
  assumes "fetchVerseFromESV env mode st = (Inr v, st1)"
  shows "\<exists>ref passage more canonical. esvApi env ref = Body (Some (passage # more)) canonical
            \<and> vtext v = trim (collapseWhitespace passage)"
proof -
  from assms obtain ref st0 where "fetchFromESV env ref st0 = (Inr v, st1)"
    by (auto simp: fetchVerseFromESV_def split: prod.splits sum.splits if_splits)
  from fetchFromESV_text [OF this] show ?thesis by blast
qed

lemma getVerse_returns_fetched:
  assumes f: "fetchVerseFromESV env mode st = (Inr v, st1)"
    and q: "canMakeApiCall (clock env) (storage st)"
    and p: "preferredTranslation (getSettings (storage st)) \<noteq> VStr (js ''NKJV'')"
    and c: "force \<or> mode \<noteq> js ''daily'' \<or> \<not> cacheEligible env st"
  shows "fst (getVerse env mode force st) = Inr v"
proof -
  have hit: "(case (if mode = js ''daily'' \<and> \<not> force
                    then getCachedDailyVerse (clock env) (storage st) else None) of
                None \<Rightarrow> None
              | Some c \<Rightarrow> if VStr (translation c) = preferredTranslation (getSettings (storage st))
                          then Some c else None) = None"
    using c by (auto simp: cacheEligible_def split: option.splits)
  have forced: "fst (getVerseForced env mode st) = Inr v"
    using q by (simp add: getVerseForced_def f split: prod.splits)
  have normal: "fst (getVerseNormal env mode st) = Inr v"
    using q by (simp add: getVerseNormal_def f split: prod.splits)
  show ?thesis
    unfolding getVerse_def Let_def hit
    using p forced normal by simp
qed

text \<open>
  Claim C3. (as amended) When \<open>getVerse\<close> fetches a verse, the text it returns is the
  passage of the response with every run of whitespace collapsed to one space and the
  ends trimmed; nothing but whitespace is removed.
\<close>

theorem fetched_text_whitespace_normalised:
  assumes "fetchVerseFromESV env mode st = (Inr v, st1)"
    and "canMakeApiCall (clock env) (storage st)"
    and "preferredTranslation (getSettings (storage st)) \<noteq> VStr (js ''NKJV'')"
    and "force \<or> mode \<noteq> js ''daily'' \<or> \<not> cacheEligible env st"
  shows "fst (getVerse env mode force st) = Inr v \<and>
         (\<exists>ref passage more canonical.
             esvApi env ref = Body (Some (passage # more)) canonical
             \<and> vtext v = trim (collapseWhitespace passage)
             \<and> filter (\<lambda>c. \<not> isWhitespace c) (vtext v) = filter (\<lambda>c. \<not> isWhitespace c) passage) \<and>
         whitespaceNormalised (vtext v)"
proof -
  from fetchVerseFromESV_text [OF assms(1)] obtain ref passage more canonical where
    b: "esvApi env ref = Body (Some (passage # more)) canonical"
    and t: "vtext v = trim (collapseWhitespace passage)"
    by blast
  have k: "filter (\<lambda>c. \<not> isWhitespace c) (vtext v) = filter (\<lambda>c. \<not> isWhitespace c) passage"
    by (simp add: t trim_keeps_text collapseWhitespace_keeps_text)
  have n: "whitespaceNormalised (vtext v)"
    by (simp add: t cleaned_text_normalised)
  from getVerse_returns_fetched [OF assms] b t k n show ?thesis by blast
qed

lemma stub_fetch:
  "fetchVerseFromESV stubEnv (js ''daily'') freshState
     = (Inr \<lparr>reference = js ''John 3:16'', vtext = js ''For God so loved the world [16]...'',
             translation = js ''ESV'', isOffline = False\<rparr>,
        freshState\<lparr>requests := [js ''John 3:16'']\<rparr>)"
  by (simp add: fetchVerseFromESV_def getDailyVerseReference_def loadNKJVVerses_def
        fetchFromESV_def stubEnv_def sampleEnv_def freshState_def minimalFallback_def
        getDailyIndex_def arrayAt_def trim_def js_def isWhitespace_def Let_def)

lemma freshState_reads:
  "canMakeApiCall (clock stubEnv) (storage freshState)"
  "preferredTranslation (getSettings (storage freshState)) = VStr (js ''ESV'')"
  "\<not> cacheEligible stubEnv freshState"
  by (simp_all add: canMakeApiCall_def getApiUsage_def get_def freshState_def stubEnv_def
        sampleEnv_def MAX_DAILY_API_CALLS_def preferredTranslation_def getSettings_def spread_def
        DEFAULT_SETTINGS_def cacheEligible_def getCachedDailyVerse_def js_def
        SETTINGS_def API_USAGE_def CACHED_DAILY_VERSE_def Let_def)

theorem fetched_text_whitespace_normalised_witness:
  "fst (getVerse stubEnv (js ''daily'') False freshState)
     = Inr \<lparr>reference = js ''John 3:16'', vtext = js ''For God so loved the world [16]...'',
            translation = js ''ESV'', isOffline = False\<rparr> \<and>
   whitespaceNormalised (js ''For God so loved the world [16]...'')"
proof -
  have p: "preferredTranslation (getSettings (storage freshState)) \<noteq> VStr (js ''NKJV'')"
    by (simp add: freshState_reads js_def)
  have c: "False \<or> js ''daily'' \<noteq> js ''daily'' \<or> \<not> cacheEligible stubEnv freshState"
    by (simp add: freshState_reads)
  from fetched_text_whitespace_normalised [OF stub_fetch freshState_reads(1) p c]
  show ?thesis by simp
qed

text \<open>
  As first stated, with the bracketed numbers removed, the property fails: the passage
  of the example comes back with its \<open>[16]\<close>.
\<close>

theorem bracket_number_kept_counterexample:
  "fst (getVerse stubEnv (js ''daily'') False freshState)
     = Inr \<lparr>reference = js ''John 3:16'', vtext = js ''For God so loved the world [16]...'',
            translation = js ''ESV'', isOffline = False\<rparr> \<and>
   hasBracketNumber (js ''For God so loved the world [16]...'') \<and>
   js ''For God so loved the world [16]...'' \<noteq> js ''For God so loved the world...''"
proof -
  have p: "preferredTranslation (getSettings (storage freshState)) \<noteq> VStr (js ''NKJV'')"
    by (simp add: freshState_reads js_def)
  have c: "False \<or> js ''daily'' \<noteq> js ''daily'' \<or> \<not> cacheEligible stubEnv freshState"
    by (simp add: freshState_reads)
  have a: "fst (getVerse stubEnv (js ''daily'') False freshState)
     = Inr \<lparr>reference = js ''John 3:16'', vtext = js ''For God so loved the world [16]...'',
            translation = js ''ESV'', isOffline = False\<rparr>"
    using getVerse_returns_fetched [OF stub_fetch freshState_reads(1) p c] .
  have b: "hasBracketNumber (js ''For God so loved the world [16]...'')"
    by (simp add: js_def isDigit_def)
  have d: "js ''For God so loved the world [16]...'' \<noteq> js ''For God so loved the world...''"
    by (simp add: js_def)
  from a b d show ?thesis by blast
qed

text \<open>
  The backend's \<open>cleanVerseText\<close> on the same passage.
\<close>

lemma backend_cleanVerseText_example:
  "cleanVerseText (js ''For God so loved the world [16]...'') = js ''For God so loved the world ...''"
  by (simp add: cleanVerseText_def trim_def js_def isDigit_def isWhitespace_def Let_def)

text \<open>A passage with line breaks, a tab and doubled spaces.\<close>

lemma cleaning_example:
  "trim (collapseWhitespace ([32, 10] @ js ''For God'' @ [10, 9, 32] @ js ''so  loved'' @ [32, 32]))
     = js ''For God so loved''"
  by (simp add: trim_def js_def isWhitespace_def)

subsection \<open>The offline path\<close>

lemma getRandomIndexWithHistory_less:
  assumes "0 \<le> u" "u < 1" "items \<noteq> []"
  shows "getRandomIndexWithHistory u items history idKey < length items"
proof -
  let ?avail = "filter (\<lambda>i. idKey (items ! i) \<notin> set history) [0..<length items]"
  show ?thesis
  proof (cases "?avail = []")
    case True
    then show ?thesis
      using assms by (simp add: getRandomIndexWithHistory_def availableIndices_eq randomBelow_less)
  next
    case False
    then have "randomBelow u (length ?avail) < length ?avail"
      using assms by (simp add: randomBelow_less)
    then have "?avail ! randomBelow u (length ?avail) \<in> set ?avail"
      by (rule nth_mem)
    then have "?avail ! randomBelow u (length ?avail) < length items"
      by simp
    with False show ?thesis
      by (simp add: getRandomIndexWithHistory_def availableIndices_eq Let_def)
  qed
qed

lemma getNKJVFallback_daily:
  assumes "fst (loadNKJVVerses env st) = verses" and "verses \<noteq> []"
  shows "\<exists>i<length verses. getDailyIndex (clock env) (length verses) (js ''nkjv-verse'') = Some i
           \<and> getNKJVFallback env (js ''daily'') st
                = (Inr (offlineVerse (verses ! i)), snd (loadNKJVVerses env st))"
proof -
  have "0 < length verses" using assms(2) by simp
  from getDailyIndex_less [OF this, of "clock env" "js ''nkjv-verse''"]
  obtain i where i: "getDailyIndex (clock env) (length verses) (js ''nkjv-verse'') = Some i" "i < length verses"
    by blast
  have "getNKJVFallback env (js ''daily'') st = (Inr (offlineVerse (verses ! i)), snd (loadNKJVVerses env st))"
    using assms(1) i
    by (cases "loadNKJVVerses env st") (simp add: getNKJVFallback_def arrayAt_def)
  with i show ?thesis by blast
qed


lemma getNKJVFallback_random:
  assumes "fst (loadNKJVVerses env st) = verses" and "verses \<noteq> []"
    and "mode \<noteq> js ''daily''"
    and "asArray (getHistory (storage st) VERSE_HISTORY) = Inr history"
    and "0 \<le> randomHistory env" "randomHistory env < 1"
  shows "getRandomIndexWithHistory (randomHistory env) verses history bv_id < length verses
         \<and> getNKJVFallback env mode st
             = (Inr (offlineVerse (verses ! getRandomIndexWithHistory (randomHistory env) verses history bv_id)),
                (snd (loadNKJVVerses env st))
                  \<lparr>storage := set_store VERSE_HISTORY
                     (JIds (take MAX_VERSE_HISTORY
                        (bv_id (verses ! getRandomIndexWithHistory (randomHistory env) verses history bv_id)
                         # filter (\<lambda>i. i \<noteq> bv_id (verses ! getRandomIndexWithHistory (randomHistory env) verses history bv_id))
                             history)))
                     (storage st)\<rparr>)"
proof -
  let ?i = "getRandomIndexWithHistory (randomHistory env) verses history bv_id"
  have i: "?i < length verses"
    using assms(5,6,2) by (rule getRandomIndexWithHistory_less)
  obtain vs st1 where l: "loadNKJVVerses env st = (vs, st1)"
    by (cases "loadNKJVVerses env st")
  with assms(1) have vs: "vs = verses" by simp
  from l have s1: "storage st1 = storage st"
    using loadNKJVVerses_frame(2) [of env st] by simp
  have h: "asArray (get (storage st) VERSE_HISTORY (JIds [])) = Inr history"
    using assms(4) by (simp add: getHistory_def)
  have "getNKJVFallback env mode st
          = (Inr (offlineVerse (verses ! ?i)),
             st1\<lparr>storage := set_store VERSE_HISTORY
                     (JIds (take MAX_VERSE_HISTORY (bv_id (verses ! ?i) # filter (\<lambda>j. j \<noteq> bv_id (verses ! ?i)) history)))
                     (storage st)\<rparr>)"
    using assms(3,4) i h
    by (simp add: getNKJVFallback_def l vs s1 arrayAt_def addToHistory_def Let_def)
  with i l show ?thesis by simp
qed

text \<open>
  Claim C9. (as amended) With the preferred translation NKJV and a non-empty list of bundled
  verses, \<open>getVerse\<close> sends no request; in daily mode without \<open>forceNew\<close> it returns an
  eligible cached verse; otherwise it selects from the list through \<open>getDailyIndex\<close>
  (daily, and caches the verse) or through \<open>getRandomIndexWithHistory\<close> (any other
  mode, and leaves the cache alone). The list is the built-in one when the bundled file
  cannot be loaded.
\<close>

theorem nkjv_preference_stays_offline:
  assumes "preferredTranslation (getSettings (storage st)) = VStr (js ''NKJV'')"
    and "fst (loadNKJVVerses env st) = verses" and "verses \<noteq> []"
  shows "requests (snd (getVerse env mode force st)) = requests st \<and>
         (nkjvVerses st = None \<and> bundleFile env = None \<longrightarrow> verses = minimalFallback) \<and>
         (mode = js ''daily'' \<and> \<not> force \<and> cacheEligible env st \<longrightarrow>
            (\<exists>c. getCachedDailyVerse (clock env) (storage st) = Some c
                 \<and> getVerse env mode force st = (Inr c, st))) \<and>
         (mode = js ''daily'' \<and> (force \<or> \<not> cacheEligible env st) \<longrightarrow>
            (\<exists>i<length verses.
                getDailyIndex (clock env) (length verses) (js ''nkjv-verse'') = Some i
              \<and> fst (getVerse env mode force st) = Inr (offlineVerse (verses ! i))
              \<and> getCachedDailyVerse (clock env) (storage (snd (getVerse env mode force st)))
                  = Some (offlineVerse (verses ! i)))) \<and>
         (mode \<noteq> js ''daily'' \<and> asArray (getHistory (storage st) VERSE_HISTORY) = Inr history
            \<and> 0 \<le> randomHistory env \<and> randomHistory env < 1 \<longrightarrow>
            getRandomIndexWithHistory (randomHistory env) verses history bv_id < length verses
          \<and> fst (getVerse env mode force st)
               = Inr (offlineVerse (verses ! getRandomIndexWithHistory (randomHistory env) verses history bv_id))
          \<and> storage (snd (getVerse env mode force st)) CACHED_DAILY_VERSE = storage st CACHED_DAILY_VERSE)"
proof (intro conjI impI)
  let ?tr = "preferredTranslation (getSettings (storage st))"
  have nk: "\<And>m b. requests (snd (case getNKJVFallback env m st of
                  (Inl e, st1) \<Rightarrow> (Inl e, st1)
                | (Inr v, st1) \<Rightarrow>
                    (Inr v, if b
                            then st1\<lparr>storage := cacheDailyVerse (clock env) v (storage st1)\<rparr>
                            else st1))) = requests st"
  proof -
    fix m b
    show "requests (snd (case getNKJVFallback env m st of
                  (Inl e, st1) \<Rightarrow> (Inl e, st1)
                | (Inr v, st1) \<Rightarrow>
                    (Inr v, if b
                            then st1\<lparr>storage := cacheDailyVerse (clock env) v (storage st1)\<rparr>
                            else st1))) = requests st"
      using getNKJVFallback_requests [of env m st]
      by (cases "getNKJVFallback env m st") (auto split: sum.splits)
  qed
  show "requests (snd (getVerse env mode force st)) = requests st"
    by (simp add: getVerse_def Let_def assms(1) nk split: option.splits)
  show "verses = minimalFallback" if "nkjvVerses st = None \<and> bundleFile env = None"
    using that assms(2) by (simp add: loadNKJVVerses_def)
  show "\<exists>c. getCachedDailyVerse (clock env) (storage st) = Some c
                 \<and> getVerse env mode force st = (Inr c, st)"
    if "mode = js ''daily'' \<and> \<not> force \<and> cacheEligible env st"
    using that by (auto simp: getVerse_def Let_def cacheEligible_def split: option.splits)
  show "\<exists>i<length verses.
                getDailyIndex (clock env) (length verses) (js ''nkjv-verse'') = Some i
              \<and> fst (getVerse env mode force st) = Inr (offlineVerse (verses ! i))
              \<and> getCachedDailyVerse (clock env) (storage (snd (getVerse env mode force st)))
                  = Some (offlineVerse (verses ! i))"
    if h: "mode = js ''daily'' \<and> (force \<or> \<not> cacheEligible env st)"
  proof -
    from getNKJVFallback_daily [OF assms(2,3)] obtain i where
      i: "i < length verses" "getDailyIndex (clock env) (length verses) (js ''nkjv-verse'') = Some i"
      and f: "getNKJVFallback env (js ''daily'') st
                = (Inr (offlineVerse (verses ! i)), snd (loadNKJVVerses env st))"
      by blast
    have hit: "(case (if mode = js ''daily'' \<and> \<not> force
                    then getCachedDailyVerse (clock env) (storage st) else None) of
                None \<Rightarrow> None
              | Some c \<Rightarrow> if VStr (translation c) = ?tr then Some c else None) = None"
      using h by (auto simp: cacheEligible_def split: option.splits)
    have run: "getVerse env mode force st
          = (Inr (offlineVerse (verses ! i)),
             (snd (loadNKJVVerses env st))
               \<lparr>storage := cacheDailyVerse (clock env) (offlineVerse (verses ! i))
                              (storage (snd (loadNKJVVerses env st)))\<rparr>)"
      unfolding getVerse_def Let_def hit using h f assms(1) by simp
    have "getCachedDailyVerse (clock env) (storage (snd (getVerse env mode force st)))
            = Some (offlineVerse (verses ! i))"
      by (simp add: run getCachedDailyVerse_def cacheDailyVerse_def get_set_store)
    with i run show ?thesis by auto
  qed
next
  assume h: "mode \<noteq> js ''daily'' \<and> asArray (getHistory (storage st) VERSE_HISTORY) = Inr history
            \<and> 0 \<le> randomHistory env \<and> randomHistory env < 1"
  let ?i = "getRandomIndexWithHistory (randomHistory env) verses history bv_id"
  from h have m: "mode \<noteq> js ''daily''" and a: "asArray (getHistory (storage st) VERSE_HISTORY) = Inr history"
    and u: "0 \<le> randomHistory env" "randomHistory env < 1"
    by blast+
  note r = getNKJVFallback_random [OF assms(2,3) m a u]
  then show "?i < length verses" by blast
  have run: "getVerse env mode force st = getNKJVFallback env mode st"
    using m assms(1) by (cases "getNKJVFallback env mode st") (auto simp: getVerse_def Let_def split: sum.splits)
  show "fst (getVerse env mode force st) = Inr (offlineVerse (verses ! ?i))"
    using r by (simp add: run)
  show "storage (snd (getVerse env mode force st)) CACHED_DAILY_VERSE = storage st CACHED_DAILY_VERSE"
    using r by (simp add: run set_store_apply)
qed


lemma emptyState_reads:
  "preferredTranslation (getSettings (storage emptyState)) = VStr (js ''NKJV'')"
  "fst (loadNKJVVerses sampleEnv emptyState) = minimalFallback"
  "\<not> cacheEligible sampleEnv emptyState"
  "asArray (getHistory (storage emptyState) VERSE_HISTORY) = Inr []"
  "requests emptyState = []"
  by (simp_all add: emptyState_def sampleEnv_def preferredTranslation_def getSettings_def get_def
        spread_def DEFAULT_SETTINGS_def loadNKJVVerses_def cacheEligible_def getCachedDailyVerse_def
        asArray_def getHistory_def js_def Let_def)

lemma minimalFallback_nonempty: "minimalFallback \<noteq> []"
  by (simp add: minimalFallback_def)

theorem nkjv_preference_stays_offline_witness:
  "requests (snd (getVerse sampleEnv (js ''daily'') True emptyState)) = [] \<and>
   fst (getVerse sampleEnv (js ''daily'') True emptyState) = Inr (offlineVerse (minimalFallback ! 0)) \<and>
   getCachedDailyVerse (clock sampleEnv) (storage (snd (getVerse sampleEnv (js ''daily'') True emptyState)))
     = Some (offlineVerse (minimalFallback ! 0)) \<and>
   fst (getVerse sampleEnv (js ''random'') False emptyState) = Inr (offlineVerse (minimalFallback ! 0))"
proof -
  note d = nkjv_preference_stays_offline
             [OF emptyState_reads(1) emptyState_reads(2) minimalFallback_nonempty,
              of "js ''daily''" True]
  note r = nkjv_preference_stays_offline
             [OF emptyState_reads(1) emptyState_reads(2) minimalFallback_nonempty,
              of "js ''random''" False "[]"]
  have l: "length minimalFallback = 1" by (simp add: minimalFallback_def)
  from d have a: "requests (snd (getVerse sampleEnv (js ''daily'') True emptyState)) = requests emptyState"
    by blast
  from d have "\<exists>i<length minimalFallback.
                getDailyIndex (clock sampleEnv) (length minimalFallback) (js ''nkjv-verse'') = Some i
              \<and> fst (getVerse sampleEnv (js ''daily'') True emptyState) = Inr (offlineVerse (minimalFallback ! i))
              \<and> getCachedDailyVerse (clock sampleEnv) (storage (snd (getVerse sampleEnv (js ''daily'') True emptyState)))
                  = Some (offlineVerse (minimalFallback ! i))"
    by blast
  then have b: "fst (getVerse sampleEnv (js ''daily'') True emptyState) = Inr (offlineVerse (minimalFallback ! 0))
              \<and> getCachedDailyVerse (clock sampleEnv) (storage (snd (getVerse sampleEnv (js ''daily'') True emptyState)))
                  = Some (offlineVerse (minimalFallback ! 0))"
    by (auto simp: l)
  have m: "js ''random'' \<noteq> js ''daily''" by (simp add: js_def)
  have u: "0 \<le> randomHistory sampleEnv \<and> randomHistory sampleEnv < 1" by (simp add: sampleEnv_def)
  have i0: "getRandomIndexWithHistory (randomHistory sampleEnv) minimalFallback [] bv_id = 0"
    by (simp add: getRandomIndexWithHistory_def randomBelow_def sampleEnv_def minimalFallback_def)
  from r m u emptyState_reads(4)
  have "fst (getVerse sampleEnv (js ''random'') False emptyState)
          = Inr (offlineVerse (minimalFallback ! getRandomIndexWithHistory (randomHistory sampleEnv) minimalFallback [] bv_id))"
    by blast
  then have c: "fst (getVerse sampleEnv (js ''random'') False emptyState) = Inr (offlineVerse (minimalFallback ! 0))"
    by (simp add: i0)
  from a b c show ?thesis by (simp add: emptyState_reads)
qed

text \<open>
  As first stated, for every mode and flag, the property fails: with a verse of today
  cached, \<open>getVerse('daily', false)\<close> returns it, though it is not a verse of the list
  that is loaded now.
\<close>

theorem nkjv_cached_verse_returned_counterexample:
  "preferredTranslation (getSettings (storage cachedNKJVState)) = VStr (js ''NKJV'') \<and>
   fst (loadNKJVVerses sampleEnv cachedNKJVState) = minimalFallback \<and>
   getVerse sampleEnv (js ''daily'') False cachedNKJVState = (Inr psalmNKJV, cachedNKJVState) \<and>
   psalmNKJV \<notin> set (map offlineVerse minimalFallback)"
proof -
  have a: "preferredTranslation (getSettings (storage cachedNKJVState)) = VStr (js ''NKJV'')"
    by (simp add: cachedNKJVState_def preferredTranslation_def getSettings_def get_def spread_def
          DEFAULT_SETTINGS_def js_def SETTINGS_def CACHED_DAILY_VERSE_def Let_def)
  have b: "fst (loadNKJVVerses sampleEnv cachedNKJVState) = minimalFallback"
    by (simp add: loadNKJVVerses_def cachedNKJVState_def sampleEnv_def)
  have c: "getCachedDailyVerse (clock sampleEnv) (storage cachedNKJVState) = Some psalmNKJV"
    by (simp add: getCachedDailyVerse_def get_def cachedNKJVState_def sampleEnv_def isoDate_def js_def)
  have t: "translation psalmNKJV = js ''NKJV''" by (simp add: psalmNKJV_def)
  have d: "getVerse sampleEnv (js ''daily'') False cachedNKJVState = (Inr psalmNKJV, cachedNKJVState)"
    by (simp add: getVerse_def a c t Let_def)
  have e: "psalmNKJV \<notin> set (map offlineVerse minimalFallback)"
    by (simp add: psalmNKJV_def minimalFallback_def offlineVerse_def js_def)
  from a b d e show ?thesis by blast
qed

text \<open>
  A bundled file with an empty list of verses makes the offline path raise.
\<close>

lemma empty_bundle_raises:
  assumes "preferredTranslation (getSettings (storage st)) = VStr (js ''NKJV'')"
    and "nkjvVerses st = None" and "bundleFile env = Some []"
  shows "fst (getVerse env (js ''daily'') True st) = Inl TypeError"
  using assms
  by (simp add: getVerse_def getNKJVFallback_def loadNKJVVerses_def getDailyIndex_def Let_def)

text \<open>
  Claim C10. \<open>recordApiCall(v)\<close> adds one to \<open>callCount\<close> and appends \<open>v\<close> to
  \<open>fetchedVerses\<close> only when no entry has its reference. So the list is never longer
  than the count: this holds on the empty store, and \<open>recordApiCall\<close> and \<open>getVerse\<close>
  keep it.
\<close>

theorem recordApiCall_counts_every_call:
  "callCount (fst (recordApiCall clk v sto)) = callCount (getApiUsage clk sto) + 1 \<and>
   fetchedVerses (fst (recordApiCall clk v sto))
     = (if \<exists>w \<in> set (fetchedVerses (getApiUsage clk sto)). reference w = reference v
        then fetchedVerses (getApiUsage clk sto)
        else fetchedVerses (getApiUsage clk sto) @ [v]) \<and>
   getApiUsage clk (snd (recordApiCall clk v sto)) = fst (recordApiCall clk v sto) \<and>
   usageBounded clk Map.empty \<and>
   (usageBounded clk sto \<longrightarrow> usageBounded clk (snd (recordApiCall clk v sto))) \<and>
   (usageBounded (clock env) (storage st)
      \<longrightarrow> usageBounded (clock env) (storage (snd (getVerse env mode force st))))"
proof -
  have rec: "getApiUsage clk (snd (recordApiCall clk v sto)) = fst (recordApiCall clk v sto)"
    by (simp add: recordApiCall_def Let_def getApiUsage_set_API_USAGE getApiUsage_date)
  have step: "\<And>c w s. usageBounded c s \<Longrightarrow>
                 length (fetchedVerses (fst (recordApiCall c w s))) \<le> callCount (fst (recordApiCall c w s))"
    by (simp add: usageBounded_def recordApiCall_def Let_def)
  have a: "callCount (fst (recordApiCall clk v sto)) = callCount (getApiUsage clk sto) + 1"
    by (simp add: recordApiCall_def Let_def)
  have b: "fetchedVerses (fst (recordApiCall clk v sto))
     = (if \<exists>w \<in> set (fetchedVerses (getApiUsage clk sto)). reference w = reference v
        then fetchedVerses (getApiUsage clk sto)
        else fetchedVerses (getApiUsage clk sto) @ [v])"
    by (simp add: recordApiCall_def Let_def list_ex_iff)
  have c: "usageBounded clk Map.empty"
    by (simp add: usageBounded_def getApiUsage_def get_def Let_def)
  have d: "usageBounded clk sto \<longrightarrow> usageBounded clk (snd (recordApiCall clk v sto))"
    using step [of clk sto v] by (simp add: usageBounded_def rec)
  have e: "usageBounded (clock env) (storage st)
      \<longrightarrow> usageBounded (clock env) (storage (snd (getVerse env mode force st)))"
  proof
    assume ub: "usageBounded (clock env) (storage st)"
    from getVerse_usage [of env mode force st]
    show "usageBounded (clock env) (storage (snd (getVerse env mode force st)))"
    proof
      assume "getApiUsage (clock env) (storage (snd (getVerse env mode force st)))
                = getApiUsage (clock env) (storage st)"
      with ub show ?thesis by (simp add: usageBounded_def)
    next
      assume "\<exists>w. getApiUsage (clock env) (storage (snd (getVerse env mode force st)))
                = fst (recordApiCall (clock env) w (storage st))"
      then obtain w where "getApiUsage (clock env) (storage (snd (getVerse env mode force st)))
                = fst (recordApiCall (clock env) w (storage st))" ..
      with step [OF ub, of w] show ?thesis by (simp add: usageBounded_def)
    qed
  qed
  from a b rec c d e show ?thesis by blast
qed

theorem recordApiCall_counts_every_call_witness:
  "callCount (fst (recordApiCall (js ''2024-01-15T09:00:00.000Z'') verseA onceFetched)) = 2 \<and>
   fetchedVerses (fst (recordApiCall (js ''2024-01-15T09:00:00.000Z'') verseA onceFetched)) = [verseA] \<and>
   usageBounded (js ''2024-01-15T09:00:00.000Z'') onceFetched \<and>
   usageBounded (js ''2024-01-15T09:00:00.000Z'')
     (snd (recordApiCall (js ''2024-01-15T09:00:00.000Z'') verseA onceFetched))"
proof -
  let ?clk = "js ''2024-01-15T09:00:00.000Z''"
  note t = recordApiCall_counts_every_call [of ?clk verseA onceFetched sampleEnv emptyState "js ''daily''" False]
  have u: "getApiUsage ?clk onceFetched
             = \<lparr>date = js ''2024-01-15'', callCount = 1, fetchedVerses = [verseA]\<rparr>"
    by (simp add: getApiUsage_def get_def onceFetched_def isoDate_def js_def Let_def)
  have ub: "usageBounded ?clk onceFetched"
    by (simp add: usageBounded_def u)
  from t have a: "callCount (fst (recordApiCall ?clk verseA onceFetched)) = callCount (getApiUsage ?clk onceFetched) + 1"
    and b: "fetchedVerses (fst (recordApiCall ?clk verseA onceFetched))
     = (if \<exists>w \<in> set (fetchedVerses (getApiUsage ?clk onceFetched)). reference w = reference verseA
        then fetchedVerses (getApiUsage ?clk onceFetched)
        else fetchedVerses (getApiUsage ?clk onceFetched) @ [verseA])"
    and d: "usageBounded ?clk onceFetched \<longrightarrow> usageBounded ?clk (snd (recordApiCall ?clk verseA onceFetched))"
    by blast+
  from a b d ub show ?thesis by (simp add: u)
qed

subsection \<open>The store of custom images\<close>

lemma length_getAllImages [simp]: "length (getAllImages db) = length db"
  by (simp add: getAllImages_def)

lemma addImage_full:
  "MAX_IMAGES \<le> length db \<Longrightarrow> addImage t suffix f db = (Inl QuotaExceeded, db)"
  by (simp add: addImage_def)

lemma addImage_wrong_type:
  "length db < MAX_IMAGES \<Longrightarrow> \<not> startsWith (file_type f) (js ''image/'')
     \<Longrightarrow> addImage t suffix f db = (Inl InvalidType, db)"
  by (simp add: addImage_def)

lemma addImage_too_large:
  "length db < MAX_IMAGES \<Longrightarrow> startsWith (file_type f) (js ''image/'')
     \<Longrightarrow> file_size f > 5 * 1024 * 1024
     \<Longrightarrow> addImage t suffix f db = (Inl TooLarge, db)"
  by (simp add: addImage_def)

lemma addImage_failure_keeps_store:
  "isl (fst (addImage t suffix f db)) \<Longrightarrow> snd (addImage t suffix f db) = db"
  unfolding addImage_def Let_def
  by (simp split: if_splits)

text \<open>
  Claim C7. On a store of 10 records \<open>addImage\<close> fails with the quota error, and the
  store is the same 10 records afterwards. On any store it fails when the type of the file
  does not start with \<open>image/\<close>, and when the size of the file exceeds 5 MB; whenever it
  fails, the store is unchanged.
\<close>

theorem addImage_rejections_leave_store:
  "(length db = MAX_IMAGES \<longrightarrow>
      addImage t suffix f db = (Inl QuotaExceeded, db) \<and> length (snd (addImage t suffix f db)) = 10) \<and>
   (\<not> startsWith (file_type f) (js ''image/'') \<longrightarrow>
      isl (fst (addImage t suffix f db)) \<and> snd (addImage t suffix f db) = db) \<and>
   (file_size f > 5 * 1024 * 1024 \<longrightarrow>
      isl (fst (addImage t suffix f db)) \<and> snd (addImage t suffix f db) = db) \<and>
   (length db < MAX_IMAGES \<and> \<not> startsWith (file_type f) (js ''image/'') \<longrightarrow>
      fst (addImage t suffix f db) = Inl InvalidType) \<and>
   (length db < MAX_IMAGES \<and> startsWith (file_type f) (js ''image/'') \<and> file_size f > 5 * 1024 * 1024 \<longrightarrow>
      fst (addImage t suffix f db) = Inl TooLarge) \<and>
   (isl (fst (addImage t suffix f db)) \<longrightarrow> snd (addImage t suffix f db) = db)"
proof (intro conjI impI)
  assume full: "length db = MAX_IMAGES"
  then show "addImage t suffix f db = (Inl QuotaExceeded, db)"
    by (simp add: addImage_full)
  with full show "length (snd (addImage t suffix f db)) = 10"
    by (simp add: MAX_IMAGES_def)
next
  assume ty: "\<not> startsWith (file_type f) (js ''image/'')"
  have r: "addImage t suffix f db = (Inl QuotaExceeded, db) \<or> addImage t suffix f db = (Inl InvalidType, db)"
    using ty addImage_full [of db t suffix f] addImage_wrong_type [of db f t suffix]
    by (cases "length db < MAX_IMAGES") simp_all
  from r show "isl (fst (addImage t suffix f db))" by auto
  from r show "snd (addImage t suffix f db) = db" by auto
next
  assume sz: "file_size f > 5 * 1024 * 1024"
  have r: "addImage t suffix f db = (Inl QuotaExceeded, db) \<or> addImage t suffix f db = (Inl InvalidType, db)
           \<or> addImage t suffix f db = (Inl TooLarge, db)"
    using sz addImage_full [of db t suffix f] addImage_wrong_type [of db f t suffix]
      addImage_too_large [of db f t suffix]
    by (cases "length db < MAX_IMAGES"; cases "startsWith (file_type f) (js ''image/'')") simp_all
  from r show "isl (fst (addImage t suffix f db))" by auto
  from r show "snd (addImage t suffix f db) = db" by auto
next
  assume "length db < MAX_IMAGES \<and> \<not> startsWith (file_type f) (js ''image/'')"
  then show "fst (addImage t suffix f db) = Inl InvalidType"
    by (simp add: addImage_wrong_type)
next
  assume "length db < MAX_IMAGES \<and> startsWith (file_type f) (js ''image/'') \<and> file_size f > 5 * 1024 * 1024"
  then show "fst (addImage t suffix f db) = Inl TooLarge"
    by (simp add: addImage_too_large)
next
  assume "isl (fst (addImage t suffix f db))"
  then show "snd (addImage t suffix f db) = db"
    by (rule addImage_failure_keeps_store)
qed


theorem addImage_rejections_leave_store_witness:
  "addImage 1705309200000 (js ''k3j9x2m1q'') pngFile fullStore = (Inl QuotaExceeded, fullStore) \<and>
   length (snd (addImage 1705309200000 (js ''k3j9x2m1q'') pngFile fullStore)) = 10 \<and>
   fst (addImage 1705309200000 (js ''k3j9x2m1q'') textFile []) = Inl InvalidType \<and>
   snd (addImage 1705309200000 (js ''k3j9x2m1q'') textFile []) = [] \<and>
   fst (addImage 1705309200000 (js ''k3j9x2m1q'') hugeFile []) = Inl TooLarge \<and>
   snd (addImage 1705309200000 (js ''k3j9x2m1q'') hugeFile []) = []"
proof -
  note a = addImage_rejections_leave_store [of fullStore 1705309200000 "js ''k3j9x2m1q''" pngFile]
  note b = addImage_rejections_leave_store [of "[]" 1705309200000 "js ''k3j9x2m1q''" textFile]
  note c = addImage_rejections_leave_store [of "[]" 1705309200000 "js ''k3j9x2m1q''" hugeFile]
  have full: "length fullStore = MAX_IMAGES"
    by (simp add: fullStore_def MAX_IMAGES_def)
  have empty: "length ([] :: imageStore) < MAX_IMAGES"
    by (simp add: MAX_IMAGES_def)
  have notImage: "\<not> startsWith (file_type textFile) (js ''image/'')"
    by (simp add: startsWith_def textFile_def js_def)
  have png: "startsWith (file_type hugeFile) (js ''image/'')"
    by (simp add: startsWith_def hugeFile_def js_def)
  have big: "file_size hugeFile > 5 * 1024 * 1024"
    by (simp add: hugeFile_def)
  from a full have a': "addImage 1705309200000 (js ''k3j9x2m1q'') pngFile fullStore = (Inl QuotaExceeded, fullStore)
      \<and> length (snd (addImage 1705309200000 (js ''k3j9x2m1q'') pngFile fullStore)) = 10"
    by blast
  from b empty notImage have b': "fst (addImage 1705309200000 (js ''k3j9x2m1q'') textFile []) = Inl InvalidType
      \<and> snd (addImage 1705309200000 (js ''k3j9x2m1q'') textFile []) = []"
    by blast
  from c empty png big have c': "fst (addImage 1705309200000 (js ''k3j9x2m1q'') hugeFile []) = Inl TooLarge
      \<and> snd (addImage 1705309200000 (js ''k3j9x2m1q'') hugeFile []) = []"
    by blast
  from a' b' c' show ?thesis by blast
qed

subsection \<open>The cached daily image\<close>

lemma getBackgroundImage_cache_test:
  assumes "cachedImageOfToday env (bgStorage st) = Some img"
  shows "getBackgroundImage env (js ''daily'') enabledCategories source st
           = (if sourceMatches source img then (Inr img, st)
              else resolveImage env (unsplashAnswer env (js ''daily'') enabledCategories)
                     (js ''daily'') enabledCategories source st)"
  using assms by (simp add: getBackgroundImage_def)

lemma getBackgroundImage_background_js_cache_test:
  assumes "cachedImageOfToday env (bgStorage st) = Some img"
  shows "getBackgroundImage_background_js env (js ''daily'') enabledCategories source False st
           = (if sourceMatches source img \<and> categoryMatches enabledCategories img then (Inr img, st)
              else resolveImage env None (js ''daily'') enabledCategories source st)"
  using assms by (simp add: getBackgroundImage_background_js_def)

lemma staleCategoryState_reads:
  "cachedImageOfToday bgSampleEnv (bgStorage staleCategoryState) = Some sampleImage"
  "sourceMatches (js ''unsplash'') sampleImage"
  "\<not> categoryMatches galaxyOff sampleImage"
  "galaxyOff (category sampleImage) = Some False"
  by (simp_all add: cachedImageOfToday_def get_def staleCategoryState_def bgSampleEnv_def
        CACHED_DAILY_IMAGE_def isoDate_def js_def sourceMatches_def categoryMatches_def
        sampleImage_def galaxyOff_def)

text \<open>
  Claim C5. The claim asks a cached daily image that is not custom to be of an enabled
  category. \<open>getBackgroundImage\<close> of newtab/imageDB.js tests the source only: with the
  category galaxy switched off and the source \<open>unsplash\<close>, it returns the cached galaxy
  image of today. The copy in newtab/background.js tests the category as well, and
  computes a new image on the same input.
\<close>

theorem cached_image_of_disabled_category_returned:
  "getBackgroundImage bgSampleEnv (js ''daily'') galaxyOff (js ''unsplash'') staleCategoryState
     = (Inr sampleImage, staleCategoryState) \<and>
   galaxyOff (category sampleImage) = Some False \<and>
   isCustom sampleImage = False"
  by (simp add: getBackgroundImage_cache_test [OF staleCategoryState_reads(1)]
        staleCategoryState_reads) (simp add: sampleImage_def)

lemma background_js_recomputes_disabled_category:
  "fst (getBackgroundImage_background_js bgSampleEnv (js ''daily'') galaxyOff (js ''unsplash'') False
          staleCategoryState)
     = Inr \<lparr>img_id = js ''nature-01'',
            path = js ''chrome-extension://id/images/backgrounds/nature/nature-01.webp'',
            alt = js ''Nature background'', category = js ''nature'',
            photographer = None, photographerUrl = None, isUnsplash = False, isCustom = False\<rparr>"
proof -
  have k: "js ''unsplash'' \<noteq> js ''custom''" "js ''unsplash'' \<noteq> js ''both''"
    by (simp_all add: js_def)
  have l: "getLocalImage bgSampleEnv (js ''daily'') galaxyOff staleCategoryState
     = (Inr \<lparr>img_id = js ''nature-01'',
            path = js ''chrome-extension://id/images/backgrounds/nature/nature-01.webp'',
            alt = js ''Nature background'', category = js ''nature'',
            photographer = None, photographerUrl = None, isUnsplash = False, isCustom = False\<rparr>,
        staleCategoryState)"
    by (simp add: getLocalImage_def loadImagesData_def staleCategoryState_def bgSampleEnv_def
          minimalImages_def filterByCategories_def galaxyOff_def getDailyIndex_def arrayAt_def
          js_def Let_def)
  show ?thesis
    by (simp add: getBackgroundImage_background_js_cache_test [OF staleCategoryState_reads(1)]
          staleCategoryState_reads resolveImage_def k verified_def orLocal_def l cacheDailyImage_def)
qed

text \<open>
  The copy in newtab/background.js accepts the cached image of today exactly when its
  source and, for an image that is not custom, its category match the settings.
\<close>

theorem background_js_accepts_cache_when_settings_match:
  assumes "cachedImageOfToday env (bgStorage st) = Some img"
  shows "(sourceMatches source img \<and> categoryMatches enabledCategories img \<longrightarrow>
            getBackgroundImage_background_js env (js ''daily'') enabledCategories source False st
              = (Inr img, st)) \<and>
         (\<not> (sourceMatches source img \<and> categoryMatches enabledCategories img) \<longrightarrow>
            getBackgroundImage_background_js env (js ''daily'') enabledCategories source False st
              = resolveImage env None (js ''daily'') enabledCategories source st)"
  by (simp add: getBackgroundImage_background_js_cache_test [OF assms])

theorem background_js_accepts_cache_when_settings_match_witness:
  "getBackgroundImage_background_js bgSampleEnv (js ''daily'') galaxyOff (js ''unsplash'') False
     staleCategoryState
     = resolveImage bgSampleEnv None (js ''daily'') galaxyOff (js ''unsplash'') staleCategoryState \<and>
   getBackgroundImage_background_js bgSampleEnv (js ''daily'') (galaxyOff(js ''galaxy'' \<mapsto> True))
     (js ''unsplash'') False staleCategoryState
     = (Inr sampleImage, staleCategoryState)"
proof -
  note a = background_js_accepts_cache_when_settings_match
             [OF staleCategoryState_reads(1), of "js ''unsplash''" galaxyOff]
  note b = background_js_accepts_cache_when_settings_match
             [OF staleCategoryState_reads(1), of "js ''unsplash''" "galaxyOff(js ''galaxy'' \<mapsto> True)"]
  have off: "\<not> (sourceMatches (js ''unsplash'') sampleImage \<and> categoryMatches galaxyOff sampleImage)"
    by (simp add: staleCategoryState_reads)
  have cat: "categoryMatches (galaxyOff(js ''galaxy'' \<mapsto> True)) sampleImage"
    by (simp add: categoryMatches_def sampleImage_def js_def)
  have on: "sourceMatches (js ''unsplash'') sampleImage
            \<and> categoryMatches (galaxyOff(js ''galaxy'' \<mapsto> True)) sampleImage"
    using staleCategoryState_reads(2) cat by (rule conjI)
  from a off b on show ?thesis by blast
qed

end
